theory Spec2Isabelle
  imports Main "HOL-Library.Char_ord" "HOL-Library.List_Lexorder" "HOL-Library.Product_Lexorder"
begin

section \<open>JavaScript strings\<close>

text \<open>
  A JavaScript string is modelled as a \<^typ>\<open>string\<close>; a character stands for the code
  unit of the same number, so the model covers the strings whose code units are below 256.
  \<open>String.prototype.trim\<close> removes white space and line terminators from both ends;
  below 256 these are TAB, LF, VT, FF, CR, SPACE and the no-break space U+00A0.
\<close>

definition is_js_whitespace :: "char \<Rightarrow> bool" where
  "is_js_whitespace c \<longleftrightarrow>
     c \<in> set [CHR 0x09, CHR 0x0A, CHR 0x0B, CHR 0x0C, CHR 0x0D, CHR 0x20, CHR 0xA0]"

definition trim :: "string \<Rightarrow> string" where
  "trim s = rev (dropWhile is_js_whitespace (rev (dropWhile is_js_whitespace s)))"

text \<open>\<open>s.startsWith(p)\<close>.\<close>

definition startsWith :: "string \<Rightarrow> string \<Rightarrow> bool" where
  "startsWith s p \<longleftrightarrow> take (length p) s = p"

text \<open>
  \<open>s.split(sep)\<close> for a separator of one character: the pieces between the
  occurrences of the separator, in order; a string without separator gives itself.
\<close>

fun split_js :: "char \<Rightarrow> string \<Rightarrow> string list" where
  "split_js sep [] = [[]]"
| "split_js sep (c # cs) =
     (if c = sep then [] # split_js sep cs
      else (case split_js sep cs of
              [] \<Rightarrow> [[c]]
            | piece # pieces \<Rightarrow> (c # piece) # pieces))"

text \<open>A value is truthy in a condition; of a string, every one but the empty string.\<close>

definition truthy_string :: "string option \<Rightarrow> bool" where
  "truthy_string v \<longleftrightarrow> (case v of None \<Rightarrow> False | Some s \<Rightarrow> s \<noteq> [])"

section \<open>The database \<open>library_system\<close>\<close>

text \<open>
  The tables and the columns that the queries of \<open>server.js\<close> name. A nullable column is
  an \<open>option\<close>. Table rows are kept in a list, in the order in which a query without
  \<open>ORDER BY\<close> returns them. Strings are compared for equality as they are.
\<close>

record rfid_row =
  r_user_id :: string
  r_uid :: string

record user_row =
  u_user_id :: string
  u_user_type :: string
  u_user_name :: string
  u_year :: "string option"
  u_designation :: "string option"
  u_program_id :: "nat option"
  u_department_id :: "nat option"

record program_row =
  p_program_id :: nat
  p_degree :: string
  p_branch_name :: string
  p_branch_code :: string

record department_row =
  d_department_id :: nat
  d_department_name :: string

record attendance_row =
  al_log_id :: nat
  al_user_id :: string
  al_log_date :: string
  al_login_time :: string
  al_logout_time :: "string option"

record database =
  rfid_details :: "rfid_row list"
  users :: "user_row list"
  programs :: "program_row list"
  departments :: "department_row list"
  attendance_log :: "attendance_row list"

subsection \<open>The statements of \<open>handleCardScan\<close>\<close>

text \<open>\<open>SELECT user_id FROM rfid_details WHERE uid = ?\<close>\<close>

definition select_rfid_user :: "string \<Rightarrow> database \<Rightarrow> string list" where
  "select_rfid_user uid d = map r_user_id (filter (\<lambda>r. r_uid r = uid) (rfid_details d))"

text \<open>
  \<open>SELECT u.*, p.degree, p.branch_name, p.branch_code, d.department_name FROM users u
  LEFT JOIN programs p ON u.program_id = p.program_id
  LEFT JOIN departments d ON u.department_id = d.department_id WHERE u.user_id = ?\<close>:
  a left join keeps a row that has no partner, with NULL in the partner's columns.
\<close>

record details =
  det_user :: user_row
  det_degree :: "string option"
  det_branch_name :: "string option"
  det_branch_code :: "string option"
  det_department_name :: "string option"

definition left_join :: "('b \<Rightarrow> bool) \<Rightarrow> 'b list \<Rightarrow> 'b option list" where
  "left_join on_cond partners =
     (case filter on_cond partners of [] \<Rightarrow> [None] | ps \<Rightarrow> map Some ps)"

definition select_user_details :: "string \<Rightarrow> database \<Rightarrow> details list" where
  "select_user_details user_id d =
     [\<lparr>det_user = u,
       det_degree = map_option p_degree p,
       det_branch_name = map_option p_branch_name p,
       det_branch_code = map_option p_branch_code p,
       det_department_name = map_option d_department_name dep\<rparr>.
        u \<leftarrow> users d,
        p \<leftarrow> left_join (\<lambda>p. u_program_id u = Some (p_program_id p)) (programs d),
        dep \<leftarrow> left_join (\<lambda>dep. u_department_id u = Some (d_department_id dep)) (departments d),
        u_user_id u = user_id]"

text \<open>
  \<open>SELECT log_id FROM attendance_log WHERE user_id = ? AND log_date = ? AND logout_time
  IS NULL LIMIT 1\<close>: the open sessions of the user on that date, the first of them.
\<close>

definition open_session :: "string \<Rightarrow> string \<Rightarrow> attendance_row \<Rightarrow> bool" where
  "open_session user_id date row \<longleftrightarrow>
     al_user_id row = user_id \<and> al_log_date row = date \<and> al_logout_time row = None"

definition select_open_logins :: "string \<Rightarrow> string \<Rightarrow> database \<Rightarrow> nat list" where
  "select_open_logins user_id date d =
     take 1 (map al_log_id (filter (open_session user_id date) (attendance_log d)))"

text \<open>\<open>UPDATE attendance_log SET logout_time = ? WHERE log_id = ?\<close>\<close>

definition update_logout_time :: "string \<Rightarrow> nat \<Rightarrow> database \<Rightarrow> database" where
  "update_logout_time time log_id d =
     d\<lparr>attendance_log :=
          map (\<lambda>row. if al_log_id row = log_id then row\<lparr>al_logout_time := Some time\<rparr> else row)
            (attendance_log d)\<rparr>"

text \<open>
  \<open>INSERT INTO attendance_log (user_id, log_date, login_time) VALUES (?, ?, ?)\<close>. The
  statement names neither \<open>log_id\<close> nor \<open>logout_time\<close>: the table gives the new row a key
  that no row has, here the successor of the largest one, and no logout time.
\<close>

definition next_log_id :: "attendance_row list \<Rightarrow> nat" where
  "next_log_id rows = Suc (fold max (map al_log_id rows) 0)"

definition insert_login :: "string \<Rightarrow> string \<Rightarrow> string \<Rightarrow> database \<Rightarrow> database" where
  "insert_login user_id date time d =
     d\<lparr>attendance_log := attendance_log d @
          [\<lparr>al_log_id = next_log_id (attendance_log d), al_user_id = user_id,
            al_log_date = date, al_login_time = time, al_logout_time = None\<rparr>]\<rparr>"

subsection \<open>The statement of \<open>getTodayBranchCounts\<close>\<close>

text \<open>
  \<open>SELECT p.degree, p.branch_code, COUNT(al.log_id) as visit_count FROM attendance_log al
  JOIN users u ON al.user_id = u.user_id JOIN programs p ON u.program_id = p.program_id
  WHERE al.log_date = ? AND u.user_type = 'student' GROUP BY p.degree, p.branch_code
  ORDER BY p.degree, p.branch_code\<close>.
  \<open>counted_visits\<close> is the joined and filtered table, of which only the grouping columns
  matter; every group is counted, and the groups come in ascending order of the pair,
  strings being ordered character by character.
\<close>

record count_row =
  c_degree :: string
  c_branch_code :: string
  c_visit_count :: nat

definition counted_visits :: "string \<Rightarrow> database \<Rightarrow> (string \<times> string) list" where
  "counted_visits today d =
     [(p_degree p, p_branch_code p).
        al \<leftarrow> attendance_log d,
        u \<leftarrow> users d, al_user_id al = u_user_id u,
        p \<leftarrow> programs d, u_program_id u = Some (p_program_id p),
        al_log_date al = today \<and> u_user_type u = ''student'']"

definition select_branch_counts :: "string \<Rightarrow> database \<Rightarrow> count_row list" where
  "select_branch_counts today d =
     map (\<lambda>k. \<lparr>c_degree = fst k, c_branch_code = snd k,
                c_visit_count = count_list (counted_visits today d) k\<rparr>)
       (sort (remdups (counted_visits today d)))"

section \<open>Events sent to the dashboard\<close>

datatype scan_status = UNREGISTERED | NO_DETAILS | LOGIN | LOGOUT | ERROR | IGNORED

text \<open>
  The object \<open>eventData\<close>: \<open>uid\<close> is set from the start, the other properties are added
  on the way. The property \<open>message\<close> is that of the event for a duplicate scan.
\<close>

record event_data =
  ev_uid :: string
  ev_status :: "scan_status option"
  ev_details :: "details option"
  ev_time :: "string option"
  ev_message :: "string option"

definition new_event_data :: "string \<Rightarrow> event_data" where
  "new_event_data uid =
     \<lparr>ev_uid = uid, ev_status = None, ev_details = None, ev_time = None, ev_message = None\<rparr>"

text \<open>
  The object \<open>groupedCounts\<close> of \<open>getTodayBranchCounts\<close>: its own properties, in the
  order in which the object enumerates them, each an array of
  \<open>{branch_code, visit_count}\<close>. It is created by \<open>{}\<close>, so a property that it does not
  own is looked up in \<open>Object.prototype\<close>, where the names below are bound to functions
  (\<open>__proto__\<close> to the prototype itself).
\<close>

record branch_count =
  b_branch_code :: string
  b_visit_count :: nat

type_synonym grouped_counts = "(string \<times> branch_count list) list"

definition object_prototype_names :: "string list" where
  "object_prototype_names =
     [''constructor'', ''hasOwnProperty'', ''isPrototypeOf'', ''propertyIsEnumerable'',
      ''toLocaleString'', ''toString'', ''valueOf'', ''__proto__'', ''__defineGetter__'',
      ''__defineSetter__'', ''__lookupGetter__'', ''__lookupSetter__'']"

datatype property_value = Undefined | Inherited | Array "branch_count list"

definition get_property :: "grouped_counts \<Rightarrow> string \<Rightarrow> property_value" where
  "get_property obj key =
     (case map_of obj key of
        Some entries \<Rightarrow> Array entries
      | None \<Rightarrow> if key \<in> set object_prototype_names then Inherited else Undefined)"

text \<open>
  An object enumerates the keys that are array indices first, in ascending order of
  their numbers, and the other keys after them in the order of their creation. An array
  index is the decimal numeral, without leading zero, of a number below \<open>2^32 - 1\<close>.
\<close>

definition is_digit :: "char \<Rightarrow> bool" where
  "is_digit c \<longleftrightarrow> c \<in> set ''0123456789''"

definition index_value :: "string \<Rightarrow> int" where
  "index_value key = fold (\<lambda>c n. 10 * n + (of_char c - 48)) key 0"

definition is_array_index :: "string \<Rightarrow> bool" where
  "is_array_index key \<longleftrightarrow>
     key \<noteq> [] \<and> list_all is_digit key \<and> (key = ''0'' \<or> hd key \<noteq> CHR ''0'') \<and>
     index_value key < 4294967295"

definition comes_before :: "string \<Rightarrow> string \<times> branch_count list \<Rightarrow> bool" where
  "comes_before key kv \<longleftrightarrow> is_array_index (fst kv) \<and> index_value (fst kv) < index_value key"

text \<open>
  An assignment to a property that the object owns replaces its value where it stands;
  an assignment to a new key creates the property at its place in the enumeration.
\<close>

definition set_property :: "grouped_counts \<Rightarrow> string \<Rightarrow> branch_count list \<Rightarrow> grouped_counts" where
  "set_property obj key entries =
     (if key \<in> set (map fst obj)
      then map (\<lambda>kv. if fst kv = key then (key, entries) else kv) obj
      else if is_array_index key
      then takeWhile (comes_before key) obj @ (key, entries) # dropWhile (comes_before key) obj
      else obj @ [(key, entries)])"

text \<open>An array and a function are truthy, \<open>undefined\<close> is not.\<close>

definition truthy_value :: "property_value \<Rightarrow> bool" where
  "truthy_value v \<longleftrightarrow> v \<noteq> Undefined"

datatype emission = ScanEvent event_data | CountsUpdate grouped_counts

section \<open>Queries that can fail\<close>

text \<open>
  Every call of \<open>query\<close>, \<open>beginTransaction\<close> and \<open>commit\<close> in the modelled functions
  is a site. A call either returns or throws; which sites throw is a parameter \<open>fails\<close> of
  the model. A call that throws has changed no table.
\<close>

datatype statement =
    SelectRfidUser | SelectUserDetails | SelectOpenLogins | UpdateLogoutTime | InsertLogin
  | SelectBranchCounts | AutoLogout
  | BeginTransaction | SelectUidOwner | DeleteRfid | InsertRfid | Commit
  | RegisterBinding

datatype error = DbError statement | TypeError | UidAssigned string string

text \<open>
  The lines written by \<open>console.error(label, error)\<close>, and the line
  \<open>Auto-logged out n for date.\<close> of the daily job.
\<close>

datatype log_line = ConsoleError string error | ConsoleAutoLoggedOut nat string

record world =
  db :: database
  emitted :: "emission list"
  console :: "log_line list"
  issued :: "statement list"

definition dbPool_query ::
  "(statement \<Rightarrow> bool) \<Rightarrow> statement \<Rightarrow> (database \<Rightarrow> 'a \<times> database) \<Rightarrow> world \<Rightarrow> (error + 'a) \<times> world" where
  "dbPool_query fails site run w =
     (if fails site then (Inl (DbError site), w\<lparr>issued := issued w @ [site]\<rparr>)
      else (Inr (fst (run (db w))), w\<lparr>db := snd (run (db w)), issued := issued w @ [site]\<rparr>))"

definition reading :: "(database \<Rightarrow> 'a) \<Rightarrow> database \<Rightarrow> 'a \<times> database" where
  "reading q d = (q d, d)"

definition writing :: "(database \<Rightarrow> database) \<Rightarrow> database \<Rightarrow> unit \<times> database" where
  "writing q d = ((), q d)"

definition io_emit :: "emission \<Rightarrow> world \<Rightarrow> world" where
  "io_emit e w = w\<lparr>emitted := emitted w @ [e]\<rparr>"

definition console_write :: "log_line \<Rightarrow> world \<Rightarrow> world" where
  "console_write l w = w\<lparr>console := console w @ [l]\<rparr>"

section \<open>\<open>getTodayBranchCounts\<close>\<close>

text \<open>
  The loop \<open>for (const row of flatCounts)\<close>: an array is created under the degree when
  \<open>groupedCounts[row.degree]\<close> is not truthy, then the entry is pushed on
  \<open>groupedCounts[row.degree]\<close>. What is found there without being an array has no method
  \<open>push\<close>, and the call throws a \<open>TypeError\<close>.
\<close>

fun group_by_degree :: "count_row list \<Rightarrow> grouped_counts \<Rightarrow> error + grouped_counts" where
  "group_by_degree [] groupedCounts = Inr groupedCounts"
| "group_by_degree (row # flatCounts) groupedCounts =
     (let created =
            (if \<not> truthy_value (get_property groupedCounts (c_degree row))
             then set_property groupedCounts (c_degree row) []
             else groupedCounts)
      in case get_property created (c_degree row) of
           Array entries \<Rightarrow>
             group_by_degree flatCounts
               (set_property created (c_degree row)
                  (entries @ [\<lparr>b_branch_code = c_branch_code row,
                                b_visit_count = c_visit_count row\<rparr>]))
         | Inherited \<Rightarrow> Inl TypeError
         | Undefined \<Rightarrow> Inl TypeError)"

text \<open>The date \<open>today\<close> is read from the clock when the function is called.\<close>

definition getTodayBranchCounts ::
  "(statement \<Rightarrow> bool) \<Rightarrow> string \<Rightarrow> world \<Rightarrow> (error + grouped_counts) \<times> world" where
  "getTodayBranchCounts fails today w =
     (case dbPool_query fails SelectBranchCounts (reading (select_branch_counts today)) w of
        (Inl e, w1) \<Rightarrow> (Inl e, w1)
      | (Inr flatCounts, w1) \<Rightarrow> (group_by_degree flatCounts [], w1))"

text \<open>What the function returns on a database whose query succeeds.\<close>

definition branch_counts_of :: "string \<Rightarrow> database \<Rightarrow> error + grouped_counts" where
  "branch_counts_of today d = group_by_degree (select_branch_counts today d) []"

section \<open>\<open>handleCardScan\<close>\<close>

text \<open>
  An \<open>async\<close> function settles its promise: fulfilled when the body returns, rejected
  when an error leaves it.
\<close>

datatype settled = Fulfilled | Rejected error

text \<open>The \<open>catch\<close> block: it sees \<open>eventData\<close> as the \<open>try\<close> block left it.\<close>

definition catch_block :: "error \<Rightarrow> event_data \<Rightarrow> world \<Rightarrow> settled \<times> world" where
  "catch_block e eventData w =
     (Fulfilled,
      io_emit (ScanEvent (eventData\<lparr>ev_status := Some ERROR\<rparr>))
        (console_write (ConsoleError ''DB/Logic Error:'' e) w))"

text \<open>
  \<open>currentDate\<close> and \<open>currentTime\<close> are the two formats of \<open>now\<close>; \<open>today\<close> is the date
  that \<open>getTodayBranchCounts\<close> reads when it is called. The body is written out with the
  \<open>catch\<close> block at every point where a call can throw.
\<close>

definition handleCardScan ::
  "(statement \<Rightarrow> bool) \<Rightarrow> string \<Rightarrow> string \<Rightarrow> string \<Rightarrow> string \<Rightarrow> world \<Rightarrow> settled \<times> world" where
  "handleCardScan fails currentDate currentTime today uid w =
     (let eventData = new_event_data uid in
      (case dbPool_query fails SelectRfidUser (reading (select_rfid_user uid)) w of
         (Inl e, w1) \<Rightarrow> catch_block e eventData w1
       | (Inr rfidRows, w1) \<Rightarrow>
          (if length rfidRows = 0
           then (Fulfilled, io_emit (ScanEvent (eventData\<lparr>ev_status := Some UNREGISTERED\<rparr>)) w1)
           else
            (let user_id = hd rfidRows in
             (case dbPool_query fails SelectUserDetails (reading (select_user_details user_id)) w1 of
                (Inl e, w2) \<Rightarrow> catch_block e eventData w2
              | (Inr userRows, w2) \<Rightarrow>
                 (if length userRows = 0
                  then (Fulfilled, io_emit (ScanEvent (eventData\<lparr>ev_status := Some NO_DETAILS\<rparr>)) w2)
                  else
                   (let eventData = eventData\<lparr>ev_details := Some (hd userRows)\<rparr> in
                    (case dbPool_query fails SelectOpenLogins
                            (reading (select_open_logins user_id currentDate)) w2 of
                       (Inl e, w3) \<Rightarrow> catch_block e eventData w3
                     | (Inr openLogins, w3) \<Rightarrow>
                        (if length openLogins > 0
                         then
                          (case dbPool_query fails UpdateLogoutTime
                                  (writing (update_logout_time currentTime (hd openLogins))) w3 of
                             (Inl e, w4) \<Rightarrow> catch_block e eventData w4
                           | (Inr _, w4) \<Rightarrow>
                              (Fulfilled,
                               io_emit (ScanEvent (eventData\<lparr>ev_status := Some LOGOUT,
                                                             ev_time := Some currentTime\<rparr>)) w4))
                         else
                          (case dbPool_query fails InsertLogin
                                  (writing (insert_login user_id currentDate currentTime)) w3 of
                             (Inl e, w4) \<Rightarrow> catch_block e eventData w4
                           | (Inr _, w4) \<Rightarrow>
                              (let eventData = eventData\<lparr>ev_status := Some LOGIN,
                                                         ev_time := Some currentTime\<rparr> in
                               (case getTodayBranchCounts fails today
                                       (io_emit (ScanEvent eventData) w4) of
                                  (Inl e, w5) \<Rightarrow> catch_block e eventData w5
                                | (Inr counts, w5) \<Rightarrow>
                                   (Fulfilled, io_emit (CountsUpdate counts) w5)))))))))))))"

text \<open>A world in which nothing has been emitted, logged or asked yet.\<close>

definition world_of :: "database \<Rightarrow> world" where
  "world_of d = \<lparr>db = d, emitted = [], console = [], issued = []\<rparr>"

section \<open>The daily job \<open>autoLogoutCurrentDay\<close>\<close>

text \<open>
  \<open>UPDATE attendance_log SET logout_time = ? WHERE log_date = ? AND logout_time IS
  NULL\<close>; the result carries \<open>affectedRows\<close>, the number of rows that were changed.
\<close>

definition update_open_sessions :: "string \<Rightarrow> string \<Rightarrow> database \<Rightarrow> nat \<times> database" where
  "update_open_sessions logoutTime date d =
     (length (filter (\<lambda>row. al_log_date row = date \<and> al_logout_time row = None) (attendance_log d)),
      d\<lparr>attendance_log :=
           map (\<lambda>row. if al_log_date row = date \<and> al_logout_time row = None
                      then row\<lparr>al_logout_time := Some logoutTime\<rparr> else row)
             (attendance_log d)\<rparr>)"

definition autoLogoutCurrentDay :: "(statement \<Rightarrow> bool) \<Rightarrow> string \<Rightarrow> world \<Rightarrow> settled \<times> world" where
  "autoLogoutCurrentDay fails today w =
     (let logoutTime = ''19:00:00'' in
      (case dbPool_query fails AutoLogout (update_open_sessions logoutTime today) w of
         (Inl e, w1) \<Rightarrow> (Fulfilled, console_write (ConsoleError ''Auto-logout error:'' e) w1)
       | (Inr affectedRows, w1) \<Rightarrow>
           (Fulfilled,
            if affectedRows > 0 then console_write (ConsoleAutoLoggedOut affectedRows today) w1
            else w1)))"

section \<open>The route \<open>POST /edit-rfid/update\<close>\<close>

text \<open>
  \<open>SELECT user_id FROM rfid_details WHERE uid = ? AND user_id != ?\<close>,
  \<open>DELETE FROM rfid_details WHERE user_id = ?\<close> and
  \<open>INSERT INTO rfid_details (user_id, uid) VALUES (?, ?)\<close>.
\<close>

definition select_uid_owner :: "string \<Rightarrow> string \<Rightarrow> database \<Rightarrow> string list" where
  "select_uid_owner uid user_id d =
     map r_user_id (filter (\<lambda>r. r_uid r = uid \<and> r_user_id r \<noteq> user_id) (rfid_details d))"

definition delete_rfid :: "string \<Rightarrow> database \<Rightarrow> database" where
  "delete_rfid user_id d = d\<lparr>rfid_details := filter (\<lambda>r. r_user_id r \<noteq> user_id) (rfid_details d)\<rparr>"

definition insert_rfid :: "string \<Rightarrow> string \<Rightarrow> database \<Rightarrow> database" where
  "insert_rfid user_id uid d =
     d\<lparr>rfid_details := rfid_details d @ [\<lparr>r_user_id = user_id, r_uid = uid\<rparr>]\<rparr>"

text \<open>
  The three redirections of the handler: \<open>/edit-rfid?error=User ID missing.\<close>, the one
  with \<open>success=Updated RFID for\<close> the user, and the one with the message of the error and
  \<open>user_id_search\<close>.
\<close>

datatype response =
    RedirectUserIdMissing
  | RedirectUpdated string
  | RedirectUpdateFailed error string

text \<open>
  The \<open>try\<close> block, from \<open>beginTransaction\<close> to \<open>commit\<close>. The body fields
  \<open>user_id\<close> and \<open>new_uid\<close> are strings when the form sent them.
\<close>

definition update_transaction ::
  "(statement \<Rightarrow> bool) \<Rightarrow> string \<Rightarrow> string option \<Rightarrow> world \<Rightarrow> (error + unit) \<times> world" where
  "update_transaction fails user_id new_uid w =
     (case dbPool_query fails BeginTransaction (reading (\<lambda>d. ())) w of
        (Inl e, w1) \<Rightarrow> (Inl e, w1)
      | (Inr _, w1) \<Rightarrow>
         (case (if truthy_string new_uid
                then (case dbPool_query fails SelectUidOwner
                             (reading (select_uid_owner (the new_uid) user_id)) w1 of
                        (Inl e, w2) \<Rightarrow> (Inl e, w2)
                      | (Inr existingUidRows, w2) \<Rightarrow>
                          (if length existingUidRows > 0
                           then (Inl (UidAssigned (the new_uid) (hd existingUidRows)), w2)
                           else (Inr (), w2)))
                else (Inr (), w1)) of
            (Inl e, w2) \<Rightarrow> (Inl e, w2)
          | (Inr _, w2) \<Rightarrow>
             (case dbPool_query fails DeleteRfid (writing (delete_rfid user_id)) w2 of
                (Inl e, w3) \<Rightarrow> (Inl e, w3)
              | (Inr _, w3) \<Rightarrow>
                 (case (if truthy_string new_uid
                        then dbPool_query fails InsertRfid
                               (writing (insert_rfid user_id (the new_uid))) w3
                        else (Inr (), w3)) of
                    (Inl e, w4) \<Rightarrow> (Inl e, w4)
                  | (Inr _, w4) \<Rightarrow> dbPool_query fails Commit (reading (\<lambda>d. ())) w4))))"

text \<open>
  The handler. The \<open>catch\<close> block calls \<open>rollback\<close>, after which the tables are as they
  were when the transaction began.
\<close>

definition edit_rfid_update ::
  "(statement \<Rightarrow> bool) \<Rightarrow> string option \<Rightarrow> string option \<Rightarrow> world \<Rightarrow> response \<times> world" where
  "edit_rfid_update fails user_id new_uid w =
     (if \<not> truthy_string user_id then (RedirectUserIdMissing, w)
      else
       (case update_transaction fails (the user_id) new_uid w of
          (Inl e, w1) \<Rightarrow>
            (RedirectUpdateFailed e (the user_id),
             console_write (ConsoleError ''RFID Update Error:'' e) (w1\<lparr>db := db w\<rparr>))
        | (Inr _, w1) \<Rightarrow> (RedirectUpdated (the user_id), w1)))"

section \<open>The route \<open>POST /add\<close>\<close>

text \<open>
  The handler answers \<open>All fields are required.\<close> when \<open>user_id\<close> or \<open>uid\<close> is missing,
  and otherwise runs \<open>INSERT INTO rfid_details (user_id, uid) VALUES (?, ?)\<close>; an error
  of the insertion is answered with one of three redirections to \<open>/register?error=\<close>,
  the success with \<open>/register?success=Registration successful!\<close>.
\<close>

datatype register_response = RegisterFieldsRequired | RegisterSuccessful | RegisterFailed error

definition post_add :: "(statement \<Rightarrow> bool) \<Rightarrow> string option \<Rightarrow> string option \<Rightarrow> world \<Rightarrow> register_response \<times> world" where
  "post_add fails user_id uid w =
     (if \<not> truthy_string user_id \<or> \<not> truthy_string uid then (RegisterFieldsRequired, w)
      else
       (case dbPool_query fails RegisterBinding
               (writing (insert_rfid (the user_id) (the uid))) w of
          (Inl e, w1) \<Rightarrow> (RegisterFailed e, w1)
        | (Inr _, w1) \<Rightarrow> (RegisterSuccessful, w1)))"

section \<open>The serial port\<close>

text \<open>
  The parser hands every line of the port to the \<open>data\<close> callback. What the callback
  does besides changing \<open>scannedRecently\<close> and setting a timer is a list of actions.
\<close>

definition SCAN_TIMEOUT_MS :: nat where
  "SCAN_TIMEOUT_MS = 5000"

datatype action = Emit emission | Call_handleCardScan string

text \<open>
  The state of the process between two callbacks: the set \<open>scannedRecently\<close>, the timers
  that \<open>setTimeout\<close> has set and that have not run, each with the time at which it is
  due and the \<open>uid\<close> that its callback deletes, and the time of the last callback, in
  milliseconds.
\<close>

record serial_state =
  scannedRecently :: "string set"
  timers :: "(nat \<times> string) list"
  clock :: nat

definition ignored_event :: "string \<Rightarrow> emission" where
  "ignored_event uid =
     ScanEvent ((new_event_data uid)\<lparr>ev_status := Some IGNORED,
                                      ev_message := Some ''Duplicate scan. Wait 5s.''\<rparr>)"

definition on_data :: "nat \<Rightarrow> string \<Rightarrow> serial_state \<Rightarrow> action list \<times> serial_state" where
  "on_data now line s =
     (if startsWith line ''RFID Tag UID:''
      then
       (let uid = trim (split_js CHR '':'' line ! 1) in
        if uid \<in> scannedRecently s then ([Emit (ignored_event uid)], s)
        else
         ([Call_handleCardScan uid],
          s\<lparr>scannedRecently := insert uid (scannedRecently s),
            timers := timers s @ [(now + SCAN_TIMEOUT_MS, uid)]\<rparr>))
      else ([], s))"

text \<open>The callback of the timer: \<open>scannedRecently.delete(uid)\<close>.\<close>

definition on_timeout :: "string \<Rightarrow> serial_state \<Rightarrow> serial_state" where
  "on_timeout uid s = s\<lparr>scannedRecently := scannedRecently s - {uid}\<rparr>"

text \<open>
  The runtime calls one callback after the other. \<open>Data t line\<close> is a line read at time
  \<open>t\<close>; \<open>Expire t i\<close> runs, at time \<open>t\<close>, the timer at position \<open>i\<close> of the pending
  ones. The runtime never goes back in time and never runs a timer before it is due; a
  sequence of callbacks that would need either has no run.
\<close>

datatype callback = Data nat string | Expire nat nat

fun run_callback :: "callback \<Rightarrow> serial_state \<Rightarrow> (action list \<times> serial_state) option" where
  "run_callback (Data t line) s =
     (if t < clock s then None else Some (on_data t line (s\<lparr>clock := t\<rparr>)))"
| "run_callback (Expire t i) s =
     (if t < clock s \<or> length (timers s) \<le> i \<or> t < fst (timers s ! i) then None
      else Some ([], on_timeout (snd (timers s ! i))
                       (s\<lparr>timers := take i (timers s) @ drop (Suc i) (timers s), clock := t\<rparr>)))"

fun run_callbacks :: "callback list \<Rightarrow> serial_state \<Rightarrow> (action list list \<times> serial_state) option" where
  "run_callbacks [] s = Some ([], s)"
| "run_callbacks (c # cs) s =
     (case run_callback c s of
        None \<Rightarrow> None
      | Some (acts, s1) \<Rightarrow>
         (case run_callbacks cs s1 of
            None \<Rightarrow> None
          | Some (rest, s2) \<Rightarrow> Some (acts # rest, s2)))"

definition serial_start :: serial_state where
  "serial_start = \<lparr>scannedRecently = {}, timers = [], clock = 0\<rparr>"

text \<open>The tag that a line carries, when it is a scan line.\<close>

definition line_uid :: "string \<Rightarrow> string option" where
  "line_uid line =
     (if startsWith line ''RFID Tag UID:'' then Some (trim (split_js CHR '':'' line ! 1))
      else None)"

section \<open>Routes and the middleware \<open>isAuthenticated\<close>\<close>

text \<open>
  Of a request, the middleware reads \<open>req.session.user\<close>: the object that
  \<open>POST /login\<close> stored there, or nothing.
\<close>

record session_user =
  su_username :: string
  su_role :: string
  su_linked_user_id :: "string option"

record request =
  req_path :: string
  req_session_user :: "session_user option"

datatype outcome = Next | Redirected string

definition isAuthenticated :: "request \<Rightarrow> outcome" where
  "isAuthenticated req =
     (case req_session_user req of
        Some user \<Rightarrow> Next
      | None \<Rightarrow> Redirected ''/login?error=Please login to access this page.'')"

text \<open>
  A route is registered with a method, a path and its callbacks in order; the last one is
  the handler, named here by the route. \<open>upload.single\<close> stores the file and goes on.
\<close>

datatype http_method = GET | POST

datatype route_callback = IsAuthenticated | UploadSingle string | Handler

datatype route_section = PublicRoutes | AdminRoutes

record route =
  rt_section :: route_section
  rt_method :: http_method
  rt_path :: string
  rt_callbacks :: "route_callback list"

datatype served = HandlerRan | RedirectedTo string | NothingLeft

fun run_route_callbacks :: "request \<Rightarrow> route_callback list \<Rightarrow> served" where
  "run_route_callbacks req [] = NothingLeft"
| "run_route_callbacks req (IsAuthenticated # rest) =
     (case isAuthenticated req of
        Next \<Rightarrow> run_route_callbacks req rest
      | Redirected url \<Rightarrow> RedirectedTo url)"
| "run_route_callbacks req (UploadSingle field # rest) = run_route_callbacks req rest"
| "run_route_callbacks req (Handler # rest) = HandlerRan"

text \<open>The routes of \<open>server.js\<close>, in the order and under the headings of the file.\<close>

definition routes :: "route list" where
  "routes =
     [\<lparr>rt_section = PublicRoutes, rt_method = GET, rt_path = ''/'', rt_callbacks = [Handler]\<rparr>,
      \<lparr>rt_section = PublicRoutes, rt_method = GET, rt_path = ''/dashboard'', rt_callbacks = [Handler]\<rparr>,
      \<lparr>rt_section = PublicRoutes, rt_method = GET, rt_path = ''/register'', rt_callbacks = [Handler]\<rparr>,
      \<lparr>rt_section = PublicRoutes, rt_method = POST, rt_path = ''/add'', rt_callbacks = [Handler]\<rparr>,
      \<lparr>rt_section = PublicRoutes, rt_method = GET, rt_path = ''/login'', rt_callbacks = [Handler]\<rparr>,
      \<lparr>rt_section = PublicRoutes, rt_method = POST, rt_path = ''/login'', rt_callbacks = [Handler]\<rparr>,
      \<lparr>rt_section = PublicRoutes, rt_method = GET, rt_path = ''/logout'', rt_callbacks = [Handler]\<rparr>,
      \<lparr>rt_section = AdminRoutes, rt_method = GET, rt_path = ''/home'',
        rt_callbacks = [IsAuthenticated, Handler]\<rparr>,
      \<lparr>rt_section = AdminRoutes, rt_method = GET, rt_path = ''/actions/:userType'',
        rt_callbacks = [IsAuthenticated, Handler]\<rparr>,
      \<lparr>rt_section = AdminRoutes, rt_method = GET, rt_path = ''/reports/student'',
        rt_callbacks = [IsAuthenticated, Handler]\<rparr>,
      \<lparr>rt_section = AdminRoutes, rt_method = GET, rt_path = ''/reports/faculty'',
        rt_callbacks = [IsAuthenticated, Handler]\<rparr>,
      \<lparr>rt_section = AdminRoutes, rt_method = POST, rt_path = ''/reports/preview'',
        rt_callbacks = [IsAuthenticated, Handler]\<rparr>,
      \<lparr>rt_section = AdminRoutes, rt_method = POST, rt_path = ''/reports/download'',
        rt_callbacks = [IsAuthenticated, Handler]\<rparr>,
      \<lparr>rt_section = AdminRoutes, rt_method = GET, rt_path = ''/manage-student'',
        rt_callbacks = [IsAuthenticated, Handler]\<rparr>,
      \<lparr>rt_section = AdminRoutes, rt_method = GET, rt_path = ''/manage-faculty'',
        rt_callbacks = [IsAuthenticated, Handler]\<rparr>,
      \<lparr>rt_section = AdminRoutes, rt_method = POST, rt_path = ''/add-student-manual'',
        rt_callbacks = [IsAuthenticated, Handler]\<rparr>,
      \<lparr>rt_section = AdminRoutes, rt_method = POST, rt_path = ''/upload-students-excel'',
        rt_callbacks = [IsAuthenticated, UploadSingle ''userFile'', Handler]\<rparr>,
      \<lparr>rt_section = AdminRoutes, rt_method = POST, rt_path = ''/add-faculty-manual'',
        rt_callbacks = [IsAuthenticated, Handler]\<rparr>,
      \<lparr>rt_section = AdminRoutes, rt_method = POST, rt_path = ''/upload-faculty-excel'',
        rt_callbacks = [IsAuthenticated, UploadSingle ''userFile'', Handler]\<rparr>,
      \<lparr>rt_section = AdminRoutes, rt_method = GET, rt_path = ''/edit-rfid'',
        rt_callbacks = [IsAuthenticated, Handler]\<rparr>,
      \<lparr>rt_section = AdminRoutes, rt_method = POST, rt_path = ''/edit-rfid/search'',
        rt_callbacks = [IsAuthenticated, Handler]\<rparr>,
      \<lparr>rt_section = AdminRoutes, rt_method = POST, rt_path = ''/edit-rfid/update'',
        rt_callbacks = [IsAuthenticated, Handler]\<rparr>,
      \<lparr>rt_section = AdminRoutes, rt_method = GET, rt_path = ''/manage-programs'',
        rt_callbacks = [IsAuthenticated, Handler]\<rparr>,
      \<lparr>rt_section = AdminRoutes, rt_method = POST, rt_path = ''/manage-programs/add'',
        rt_callbacks = [IsAuthenticated, Handler]\<rparr>,
      \<lparr>rt_section = AdminRoutes, rt_method = POST, rt_path = ''/manage-programs/delete/:id'',
        rt_callbacks = [IsAuthenticated, Handler]\<rparr>]"

definition guarded :: "route \<Rightarrow> bool" where
  "guarded r \<longleftrightarrow> IsAuthenticated \<in> set (rt_callbacks r)"

section \<open>Notions used in statements and proofs\<close>

text \<open>
  The rows that a grouped object stands for: every entry with the degree it is filed
  under, in the order of the properties and of their arrays.
\<close>

definition grouped_rows :: "grouped_counts \<Rightarrow> count_row list" where
  "grouped_rows obj =
     concat (map (\<lambda>kv. map (\<lambda>e. \<lparr>c_degree = fst kv, c_branch_code = b_branch_code e,
                                  c_visit_count = b_visit_count e\<rparr>) (snd kv)) obj)"

text \<open>
  The set \<open>scannedRecently\<close> holds exactly the tags of the pending timers, and no tag
  has two of them.
\<close>

definition timers_match :: "serial_state \<Rightarrow> bool" where
  "timers_match s \<longleftrightarrow>
     scannedRecently s = snd ` set (timers s) \<and> distinct (map snd (timers s))"

section \<open>Example data\<close>

text \<open>
  A student with a program, a member of the faculty with a department, their cards, and
  no attendance yet; the same database after the student has logged in; and one in which
  the program of the student has the degree \<open>constructor\<close>.
\<close>

definition no_faults :: "statement \<Rightarrow> bool" where
  "no_faults site \<longleftrightarrow> False"

definition open_logins_fails :: "statement \<Rightarrow> bool" where
  "open_logins_fails site \<longleftrightarrow> site = SelectOpenLogins"

definition example_db :: database where
  "example_db =
     \<lparr>rfid_details = [\<lparr>r_user_id = ''21CS001'', r_uid = ''04 A3 2B 1C''\<rparr>,
                      \<lparr>r_user_id = ''F017'', r_uid = ''9C 11 0E 52''\<rparr>],
      users = [\<lparr>u_user_id = ''21CS001'', u_user_type = ''student'', u_user_name = ''Asha'',
                u_year = Some ''3'', u_designation = None, u_program_id = Some 1,
                u_department_id = None\<rparr>,
               \<lparr>u_user_id = ''F017'', u_user_type = ''faculty'', u_user_name = ''Ravi'',
                u_year = None, u_designation = Some ''Professor'', u_program_id = None,
                u_department_id = Some 1\<rparr>],
      programs = [\<lparr>p_program_id = 1, p_degree = ''B.Tech'',
                   p_branch_name = ''Computer Science'', p_branch_code = ''CSE''\<rparr>],
      departments = [\<lparr>d_department_id = 1, d_department_name = ''Physics''\<rparr>],
      attendance_log = []\<rparr>"

definition example_open_row :: attendance_row where
  "example_open_row =
     \<lparr>al_log_id = 1, al_user_id = ''21CS001'', al_log_date = ''2025-03-10'',
      al_login_time = ''09:15:00'', al_logout_time = None\<rparr>"

definition example_db_open :: database where
  "example_db_open = example_db\<lparr>attendance_log := [example_open_row]\<rparr>"

definition example_db_constructor :: database where
  "example_db_constructor =
     example_db\<lparr>programs := [\<lparr>p_program_id = 1, p_degree = ''constructor'',
                                p_branch_name = ''Computer Science'', p_branch_code = ''CSE''\<rparr>],
                attendance_log := [example_open_row]\<rparr>"

definition example_line :: string where
  "example_line = ''RFID Tag UID: 04 A3 2B 1C''"

text \<open>The same database before the card of the faculty member was registered.\<close>

definition example_db_unbound :: database where
  "example_db_unbound =
     example_db\<lparr>rfid_details := [\<lparr>r_user_id = ''21CS001'', r_uid = ''04 A3 2B 1C''\<rparr>]\<rparr>"

definition home_route :: route where
  "home_route = \<lparr>rt_section = AdminRoutes, rt_method = GET, rt_path = ''/home'',
                  rt_callbacks = [IsAuthenticated, Handler]\<rparr>"

definition add_route :: route where
  "add_route = \<lparr>rt_section = PublicRoutes, rt_method = POST, rt_path = ''/add'',
                 rt_callbacks = [Handler]\<rparr>"

definition anonymous_add_request :: request where
  "anonymous_add_request = \<lparr>req_path = ''/add'', req_session_user = None\<rparr>"

definition anonymous_request :: request where
  "anonymous_request = \<lparr>req_path = ''/home'', req_session_user = None\<rparr>"

lemmas example_defs = example_db_def example_db_open_def example_open_row_def no_faults_def

section \<open>Facts about the statements\<close>

lemma find_filter_Cons: "find P xs = Some x \<Longrightarrow> \<exists>ys. filter P xs = x # ys"
  by (induction xs) (auto split: if_splits)

lemma select_rfid_user_find:
  "find (\<lambda>r. r_uid r = uid) (rfid_details d) = Some binding \<Longrightarrow>
   \<exists>others. select_rfid_user uid d = r_user_id binding # others"
  unfolding select_rfid_user_def
  by (auto dest: find_filter_Cons)

lemma left_join_nonempty: "left_join c ps \<noteq> []"
  by (simp add: left_join_def split: list.splits)

lemma left_join_ex: "\<exists>x. x \<in> set (left_join c ps)"
  using left_join_nonempty[of c ps] by (cases "left_join c ps") auto

lemma select_user_details_nonempty:
  "user \<in> set (users d) \<Longrightarrow> u_user_id user = user_id \<Longrightarrow> select_user_details user_id d \<noteq> []"
  unfolding select_user_details_def
  by (auto simp: left_join_ex)

lemma select_rfid_user_empty:
  "\<forall>r\<in>set (rfid_details d). r_uid r \<noteq> uid \<Longrightarrow> select_rfid_user uid d = []"
  by (simp add: select_rfid_user_def filter_empty_conv)

lemma fold_max_ge: "n \<le> fold max xs (n::nat)"
  by (induction xs arbitrary: n) (auto intro: order_trans[OF max.cobounded2])

lemma fold_max_mem: "x \<in> set xs \<Longrightarrow> x \<le> fold max xs (n::nat)"
proof (induction xs arbitrary: n)
  case Nil
  then show ?case by simp
next
  case (Cons a xs)
  show ?case
  proof (cases "x = a")
    case True
    have "a \<le> max a n" by simp
    also have "\<dots> \<le> fold max xs (max a n)" by (rule fold_max_ge)
    finally show ?thesis using True by simp
  next
    case False
    with Cons show ?thesis by simp
  qed
qed

lemma next_log_id_fresh: "next_log_id rows \<notin> al_log_id ` set rows"
proof
  assume "next_log_id rows \<in> al_log_id ` set rows"
  then have "next_log_id rows \<in> set (map al_log_id rows)" by simp
  then have "next_log_id rows \<le> fold max (map al_log_id rows) 0" by (rule fold_max_mem)
  then show False by (simp add: next_log_id_def)
qed

lemma select_open_logins_none:
  "\<not> (\<exists>row\<in>set (attendance_log d). open_session user_id date row) \<Longrightarrow>
   select_open_logins user_id date d = []"
  by (simp add: select_open_logins_def filter_empty_conv)

lemma select_open_logins_some:
  assumes "\<exists>row\<in>set (attendance_log d). open_session user_id date row"
  shows "\<exists>row\<in>set (attendance_log d). open_session user_id date row \<and>
           select_open_logins user_id date d = [al_log_id row]"
proof -
  from assms obtain row rest
    where f: "filter (open_session user_id date) (attendance_log d) = row # rest"
    by (cases "filter (open_session user_id date) (attendance_log d)")
       (auto simp: filter_empty_conv)
  then have "row \<in> set (filter (open_session user_id date) (attendance_log d))" by simp
  then have "row \<in> set (attendance_log d)" "open_session user_id date row" by auto
  moreover have "select_open_logins user_id date d = [al_log_id row]"
    by (simp add: select_open_logins_def f)
  ultimately show ?thesis by blast
qed

lemma hd_select_open_logins:
  assumes "select_open_logins user_id date d \<noteq> []"
  shows "\<exists>row\<in>set (attendance_log d). open_session user_id date row \<and>
           hd (select_open_logins user_id date d) = al_log_id row"
proof -
  from assms have "\<exists>row\<in>set (attendance_log d). open_session user_id date row"
    by (auto simp: select_open_logins_def filter_empty_conv)
  from select_open_logins_some[OF this] show ?thesis by auto
qed

lemma map_by_key:
  assumes "distinct (map al_log_id rows)" and "row \<in> set rows"
  shows "map (\<lambda>r. if al_log_id r = al_log_id row then f r else r) rows =
         map (\<lambda>r. if r = row then f r else r) rows"
proof (rule map_cong[OF refl])
  fix r assume "r \<in> set rows"
  with assms have "al_log_id r = al_log_id row \<longleftrightarrow> r = row"
    by (auto simp: distinct_map inj_on_def)
  then show "(if al_log_id r = al_log_id row then f r else r) = (if r = row then f r else r)"
    by simp
qed

lemma update_logout_time_row:
  assumes "distinct (map al_log_id (attendance_log d))" and "row \<in> set (attendance_log d)"
  shows "update_logout_time time (al_log_id row) d =
         d\<lparr>attendance_log :=
              map (\<lambda>r. if r = row then r\<lparr>al_logout_time := Some time\<rparr> else r) (attendance_log d)\<rparr>"
  unfolding update_logout_time_def using map_by_key[OF assms] by simp

text \<open>
  The visits that are counted depend on the user and the date of the attendance rows, not
  on their logout times.
\<close>

lemma counted_visits_logout:
  "counted_visits day
     (d\<lparr>attendance_log := map (\<lambda>r. if P r then r\<lparr>al_logout_time := t r\<rparr> else r) (attendance_log d)\<rparr>) =
   counted_visits day d"
  unfolding counted_visits_def
  by (simp add: comp_def if_distrib[where f="\<lambda>r. al_user_id r"] if_distrib[where f="\<lambda>r. al_log_date r"]
        cong: if_cong)

lemma branch_counts_logout:
  "select_branch_counts day
     (d\<lparr>attendance_log := map (\<lambda>r. if P r then r\<lparr>al_logout_time := t r\<rparr> else r) (attendance_log d)\<rparr>) =
   select_branch_counts day d \<and>
   branch_counts_of day
     (d\<lparr>attendance_log := map (\<lambda>r. if P r then r\<lparr>al_logout_time := t r\<rparr> else r) (attendance_log d)\<rparr>) =
   branch_counts_of day d"
  by (simp add: select_branch_counts_def branch_counts_of_def counted_visits_logout)

lemma counted_visits_iff:
  "(deg, code) \<in> set (counted_visits today d) \<longleftrightarrow>
     (\<exists>al\<in>set (attendance_log d). \<exists>u\<in>set (users d). \<exists>p\<in>set (programs d).
        al_user_id al = u_user_id u \<and> u_program_id u = Some (p_program_id p) \<and>
        al_log_date al = today \<and> u_user_type u = ''student'' \<and>
        deg = p_degree p \<and> code = p_branch_code p)"
  by (auto simp: counted_visits_def)

lemma counted_visits_append:
  "counted_visits today (d\<lparr>attendance_log := xs @ ys\<rparr>) =
     counted_visits today (d\<lparr>attendance_log := xs\<rparr>) @
     counted_visits today (d\<lparr>attendance_log := ys\<rparr>)"
  by (simp add: counted_visits_def cong: if_cong)

lemma counted_visits_not_student:
  assumes "\<forall>u\<in>set (users d). u_user_id u = user_id \<longrightarrow> u_user_type u \<noteq> ''student''"
  shows "counted_visits today (insert_login user_id date time d) = counted_visits today d"
proof -
  let ?row = "\<lparr>al_log_id = next_log_id (attendance_log d), al_user_id = user_id,
                al_log_date = date, al_login_time = time, al_logout_time = None\<rparr>"
  have "(deg, code) \<notin> set (counted_visits today (d\<lparr>attendance_log := [?row]\<rparr>))" for deg code
    using assms by (auto simp: counted_visits_iff)
  then have "counted_visits today (d\<lparr>attendance_log := [?row]\<rparr>) = []"
    by (cases "counted_visits today (d\<lparr>attendance_log := [?row]\<rparr>)") force+
  then show ?thesis
    using counted_visits_append[where today=today and d=d and xs="attendance_log d" and ys="[?row]"]
    by (simp add: insert_login_def)
qed

section \<open>The grouping loop\<close>

text \<open>The loop throws nothing but a \<open>TypeError\<close>.\<close>

lemma group_by_degree_error: "group_by_degree rows obj = Inl e \<Longrightarrow> e = TypeError"
  by (induction rows obj rule: group_by_degree.induct)
     (auto simp: Let_def split: property_value.splits if_splits)

lemma map_of_absent: "key \<notin> fst ` set obj \<Longrightarrow> map_of obj key = None"
  by (simp add: map_of_eq_None_iff)

lemma map_of_snoc: "key \<notin> fst ` set obj \<Longrightarrow> map_of (obj @ [(key, v)]) key = Some v"
  by (induction obj) auto

lemma map_other_keys:
  "key \<notin> fst ` set obj \<Longrightarrow> map (\<lambda>kv. if fst kv = key then (key, v) else kv) obj = obj"
  by (induction obj) auto

lemma group_step_new:
  assumes "c_degree row \<notin> fst ` set obj" and "c_degree row \<notin> set object_prototype_names"
    and "\<not> is_array_index (c_degree row)"
  shows "group_by_degree (row # rows) obj =
         group_by_degree rows
           (obj @ [(c_degree row, [\<lparr>b_branch_code = c_branch_code row,
                                      b_visit_count = c_visit_count row\<rparr>])])"
proof -
  have u: "get_property obj (c_degree row) = Undefined"
    using assms by (simp add: get_property_def map_of_absent)
  have c: "set_property obj (c_degree row) [] = obj @ [(c_degree row, [])]"
    using assms(1,3) by (simp add: set_property_def)
  have g: "get_property (obj @ [(c_degree row, [])]) (c_degree row) = Array []"
    unfolding get_property_def map_of_snoc[OF assms(1)] by simp
  have s: "set_property (obj @ [(c_degree row, [])]) (c_degree row) es = obj @ [(c_degree row, es)]" for es
    using assms(1) by (simp add: set_property_def map_other_keys)
  show ?thesis
    by (simp add: u c g s truthy_value_def)
qed

lemma group_step_last:
  assumes "c_degree row \<notin> fst ` set obj"
  shows "group_by_degree (row # rows) (obj @ [(c_degree row, es)]) =
         group_by_degree rows
           (obj @ [(c_degree row, es @ [\<lparr>b_branch_code = c_branch_code row,
                                           b_visit_count = c_visit_count row\<rparr>])])"
proof -
  have g: "get_property (obj @ [(c_degree row, es)]) (c_degree row) = Array es"
    unfolding get_property_def map_of_snoc[OF assms] by simp
  have s: "set_property (obj @ [(c_degree row, es)]) (c_degree row) es' = obj @ [(c_degree row, es')]" for es'
    using assms by (simp add: set_property_def map_other_keys)
  show ?thesis
    by (simp add: g s truthy_value_def)
qed

lemma grouped_rows_snoc_new:
  "grouped_rows (obj @ [(c_degree row, [\<lparr>b_branch_code = c_branch_code row,
                                           b_visit_count = c_visit_count row\<rparr>])]) =
   grouped_rows obj @ [row]"
  by (simp add: grouped_rows_def)

lemma grouped_rows_snoc_last:
  "grouped_rows (obj @ [(c_degree row, es @ [\<lparr>b_branch_code = c_branch_code row,
                                                b_visit_count = c_visit_count row\<rparr>])]) =
   grouped_rows (obj @ [(c_degree row, es)]) @ [row]"
  by (simp add: grouped_rows_def)

lemma sorted_last_key:
  fixes keys :: "string list"
  assumes "sorted (keys @ [d])" and "distinct keys" and "d \<in> set keys"
  shows "\<exists>front. keys = front @ [d] \<and> d \<notin> set front"
proof -
  from assms(3) have ne: "keys \<noteq> []" by auto
  then have k: "keys = butlast keys @ [last keys]" by simp
  have "\<forall>x\<in>set keys. x \<le> d" using assms(1) by (auto simp: sorted_append)
  then have "last keys \<le> d" using ne by simp
  moreover have "d \<le> last keys"
  proof (cases "d = last keys")
    case True
    then show ?thesis by simp
  next
    case False
    with assms(3) k have "d \<in> set (butlast keys)"
      by (metis Un_iff empty_iff empty_set set_ConsD set_append)
    moreover have "sorted (butlast keys @ [last keys])"
      using assms(1) k by (metis sorted_append)
    ultimately show ?thesis by (auto simp: sorted_append)
  qed
  ultimately have "d = last keys" by simp
  moreover have "last keys \<notin> set (butlast keys)"
    using assms(2) k by (metis distinct_append disjoint_iff list.set_intros(1))
  ultimately show ?thesis using k by metis
qed

text \<open>
  On rows in ascending order of the degree, none of which is a name of
  \<open>Object.prototype\<close> or an array index, the loop returns an object that stands for
  the rows as they came, with one property for every degree.
\<close>

lemma group_by_degree_sorted:
  assumes "sorted (map fst obj @ map c_degree rows)" and "distinct (map fst obj)"
    and "\<forall>row\<in>set rows. c_degree row \<notin> set object_prototype_names"
    and "\<forall>row\<in>set rows. \<not> is_array_index (c_degree row)"
  shows "\<exists>obj'. group_by_degree rows obj = Inr obj' \<and>
           grouped_rows obj' = grouped_rows obj @ rows \<and>
           distinct (map fst obj') \<and> sorted (map fst obj')"
  using assms
proof (induction rows arbitrary: obj)
  case Nil
  then show ?case by simp
next
  case (Cons row rows)
  let ?d = "c_degree row"
  let ?e = "\<lparr>b_branch_code = c_branch_code row, b_visit_count = c_visit_count row\<rparr>"
  from Cons.prems(3) have proto: "?d \<notin> set object_prototype_names"
    and rest: "\<forall>row\<in>set rows. c_degree row \<notin> set object_prototype_names" by auto
  from Cons.prems(4) have plain: "\<not> is_array_index ?d"
    and rest_plain: "\<forall>row\<in>set rows. \<not> is_array_index (c_degree row)" by auto
  from Cons.prems(1) have srt: "sorted (map fst obj @ [?d])"
    and srt_all: "sorted (map fst obj @ ?d # map c_degree rows)"
    by (auto simp: sorted_append)
  show ?case
  proof (cases "?d \<in> set (map fst obj)")
    case True
    from sorted_last_key[OF srt Cons.prems(2) True] obtain front where
      f: "map fst obj = front @ [?d]" "?d \<notin> set front" by blast
    then obtain obj0 es where o: "obj = obj0 @ [(?d, es)]" and f0: "map fst obj0 = front"
      by (cases obj rule: rev_cases) auto
    from f(2) f0 have notin: "?d \<notin> fst ` set obj0" by (simp flip: set_map)
    let ?obj1 = "obj0 @ [(?d, es @ [?e])]"
    have keys: "map fst ?obj1 = map fst obj" by (simp add: o)
    have "\<exists>obj'. group_by_degree rows ?obj1 = Inr obj' \<and>
           grouped_rows obj' = grouped_rows ?obj1 @ rows \<and>
           distinct (map fst obj') \<and> sorted (map fst obj')"
    proof (rule Cons.IH)
      show "sorted (map fst ?obj1 @ map c_degree rows)"
        unfolding keys using srt_all by (auto simp: sorted_append)
      show "distinct (map fst ?obj1)" unfolding keys by (rule Cons.prems(2))
      show "\<forall>row\<in>set rows. c_degree row \<notin> set object_prototype_names" by (rule rest)
      show "\<forall>row\<in>set rows. \<not> is_array_index (c_degree row)" by (rule rest_plain)
    qed
    then show ?thesis
      unfolding o group_step_last[OF notin] grouped_rows_snoc_last by simp
  next
    case False
    then have notin: "?d \<notin> fst ` set obj" by simp
    let ?obj1 = "obj @ [(?d, [?e])]"
    have "\<exists>obj'. group_by_degree rows ?obj1 = Inr obj' \<and>
           grouped_rows obj' = grouped_rows ?obj1 @ rows \<and>
           distinct (map fst obj') \<and> sorted (map fst obj')"
    proof (rule Cons.IH)
      show "sorted (map fst ?obj1 @ map c_degree rows)"
        using srt_all by simp
      show "distinct (map fst ?obj1)" using Cons.prems(2) False by simp
      show "\<forall>row\<in>set rows. c_degree row \<notin> set object_prototype_names" by (rule rest)
      show "\<forall>row\<in>set rows. \<not> is_array_index (c_degree row)" by (rule rest_plain)
    qed
    then show ?thesis
      unfolding group_step_new[OF notin proto plain] grouped_rows_snoc_new by simp
  qed
qed

lemma sorted_map_fst:
  fixes xs :: "(string \<times> string) list"
  shows "sorted xs \<Longrightarrow> sorted (map fst xs)"
  by (induction xs) (auto simp: less_eq_prod_def)

lemma branch_counts_of_grouped:
  assumes "\<forall>p\<in>set (programs d). p_degree p \<notin> set object_prototype_names"
    and "\<forall>p\<in>set (programs d). \<not> is_array_index (p_degree p)"
  shows "\<exists>obj. branch_counts_of today d = Inr obj \<and>
           grouped_rows obj = select_branch_counts today d \<and>
           distinct (map fst obj) \<and> sorted (map fst obj)"
proof -
  have "map c_degree (select_branch_counts today d) = map fst (sort (remdups (counted_visits today d)))"
    by (simp add: select_branch_counts_def comp_def)
  then have s: "sorted (map c_degree (select_branch_counts today d))"
    by (simp add: sorted_map_fst)
  have p: "\<forall>row\<in>set (select_branch_counts today d). c_degree row \<notin> set object_prototype_names"
    using assms(1) by (auto simp: select_branch_counts_def counted_visits_iff)
  have q: "\<forall>row\<in>set (select_branch_counts today d). \<not> is_array_index (c_degree row)"
    using assms(2) by (auto simp: select_branch_counts_def counted_visits_iff)
  from group_by_degree_sorted[of "[]" "select_branch_counts today d"] s p q
  show ?thesis by (simp add: branch_counts_of_def grouped_rows_def)
qed

text \<open>
  Degrees that are array indices are enumerated by their numbers: the query returns the
  degree \<open>10\<close> before the degree \<open>9\<close>, and the object has \<open>9\<close> before \<open>10\<close>.
\<close>

lemma array_index_degrees_first:
  "group_by_degree
     [\<lparr>c_degree = ''10'', c_branch_code = ''CSE'', c_visit_count = 2\<rparr>,
      \<lparr>c_degree = ''9'', c_branch_code = ''ECE'', c_visit_count = 1\<rparr>] [] =
   Inr [(''9'', [\<lparr>b_branch_code = ''ECE'', b_visit_count = 1\<rparr>]),
        (''10'', [\<lparr>b_branch_code = ''CSE'', b_visit_count = 2\<rparr>])]"
proof -
  have i: "is_array_index ''10''" "is_array_index ''9''" "index_value ''9'' < index_value ''10''"
    by (simp_all add: is_array_index_def is_digit_def index_value_def)
  have n: "''10'' \<notin> set object_prototype_names" "''9'' \<notin> set object_prototype_names"
    by (simp_all add: object_prototype_names_def)
  have g1: "get_property [] ''10'' = Undefined"
    using n by (simp add: get_property_def)
  have s1: "set_property [] ''10'' es = [(''10'', es)]" for es
    using i by (simp add: set_property_def)
  have g2: "get_property [(''10'', es)] ''10'' = Array es" for es
    by (simp add: get_property_def)
  have s2: "set_property [(''10'', es)] ''10'' es' = [(''10'', es')]" for es es'
    by (simp add: set_property_def)
  have g3: "get_property [(''10'', es)] ''9'' = Undefined" for es
    using n by (simp add: get_property_def)
  have s3: "set_property [(''10'', es)] ''9'' es' = [(''9'', es'), (''10'', es)]" for es es'
    using i by (simp add: set_property_def comes_before_def)
  have g4: "get_property [(''9'', es'), (''10'', es)] ''9'' = Array es'" for es es'
    by (simp add: get_property_def)
  have s4: "set_property [(''9'', es'), (''10'', es)] ''9'' es'' = [(''9'', es''), (''10'', es)]"
    for es es' es''
    by (simp add: set_property_def)
  show ?thesis
    by (simp add: g1 s1 g2 s2 g3 s3 g4 s4 truthy_value_def)
qed

section \<open>The paths of \<open>handleCardScan\<close>\<close>

lemma handleCardScan_logout_path:
  assumes "\<not> fails SelectRfidUser" "\<not> fails SelectUserDetails" "\<not> fails SelectOpenLogins"
    "\<not> fails UpdateLogoutTime"
    and "select_rfid_user uid (db w) = user_id # others"
    and "select_user_details user_id (db w) = det # dets"
    and "select_open_logins user_id currentDate (db w) = log_id # ids"
  shows "handleCardScan fails currentDate currentTime today uid w =
    (Fulfilled,
     w\<lparr>db := update_logout_time currentTime log_id (db w),
       emitted := emitted w @
         [ScanEvent \<lparr>ev_uid = uid, ev_status = Some LOGOUT, ev_details = Some det,
                      ev_time = Some currentTime, ev_message = None\<rparr>],
       issued := issued w @ [SelectRfidUser, SelectUserDetails, SelectOpenLogins, UpdateLogoutTime]\<rparr>)"
  using assms
  by (simp add: handleCardScan_def dbPool_query_def reading_def writing_def
      io_emit_def new_event_data_def)

lemma handleCardScan_login_path:
  assumes "\<not> fails SelectRfidUser" "\<not> fails SelectUserDetails" "\<not> fails SelectOpenLogins"
    "\<not> fails InsertLogin"
    and "select_rfid_user uid (db w) = user_id # others"
    and "select_user_details user_id (db w) = det # dets"
    and "select_open_logins user_id currentDate (db w) = []"
  shows "\<exists>final.
    handleCardScan fails currentDate currentTime today uid w =
      (Fulfilled,
       w\<lparr>db := insert_login user_id currentDate currentTime (db w),
         emitted := emitted w @
           [ScanEvent \<lparr>ev_uid = uid, ev_status = Some LOGIN, ev_details = Some det,
                        ev_time = Some currentTime, ev_message = None\<rparr>,
            final],
         console := console w @
           (if fails SelectBranchCounts
            then [ConsoleError ''DB/Logic Error:'' (DbError SelectBranchCounts)]
            else case branch_counts_of today
                        (insert_login user_id currentDate currentTime (db w)) of
                   Inl e \<Rightarrow> [ConsoleError ''DB/Logic Error:'' e]
                 | Inr _ \<Rightarrow> []),
         issued := issued w @
           [SelectRfidUser, SelectUserDetails, SelectOpenLogins, InsertLogin,
            SelectBranchCounts]\<rparr>) \<and>
    final =
      (if fails SelectBranchCounts
       then ScanEvent \<lparr>ev_uid = uid, ev_status = Some ERROR, ev_details = Some det,
                        ev_time = Some currentTime, ev_message = None\<rparr>
       else case branch_counts_of today
                   (insert_login user_id currentDate currentTime (db w)) of
              Inl e \<Rightarrow> ScanEvent \<lparr>ev_uid = uid, ev_status = Some ERROR, ev_details = Some det,
                                   ev_time = Some currentTime, ev_message = None\<rparr>
            | Inr counts \<Rightarrow> CountsUpdate counts)"
  using assms
  by (simp add: handleCardScan_def dbPool_query_def reading_def writing_def
      getTodayBranchCounts_def io_emit_def new_event_data_def catch_block_def console_write_def
      branch_counts_of_def split: sum.splits)

text \<open>
  Every run from a fresh world ends in one of these worlds; \<open>eventData\<close> is what the
  body has made of it when the event is sent.
\<close>

lemma handleCardScan_outcomes:
  fixes d uid currentDate currentTime today fails
  defines "w' \<equiv> snd (handleCardScan fails currentDate currentTime today uid (world_of d))"
  defines "user_id \<equiv> hd (select_rfid_user uid d)"
  defines "ev0 \<equiv> new_event_data uid"
  defines "ev1 \<equiv> ev0\<lparr>ev_details := Some (hd (select_user_details user_id d))\<rparr>"
  defines "ev2 \<equiv> ev1\<lparr>ev_time := Some currentTime\<rparr>"
  defines "failed \<equiv> (\<lambda>site. ConsoleError ''DB/Logic Error:'' (DbError site))"
  defines "logged_in \<equiv> insert_login user_id currentDate currentTime d"
  shows "fst (handleCardScan fails currentDate currentTime today uid (world_of d)) = Fulfilled"
    and "(fails SelectRfidUser \<and>
          w' = \<lparr>db = d, emitted = [ScanEvent (ev0\<lparr>ev_status := Some ERROR\<rparr>)],
                console = [failed SelectRfidUser], issued = [SelectRfidUser]\<rparr>)
       \<or> (\<not> fails SelectRfidUser \<and>
          w' = \<lparr>db = d, emitted = [ScanEvent (ev0\<lparr>ev_status := Some UNREGISTERED\<rparr>)],
                console = [], issued = [SelectRfidUser]\<rparr>)
       \<or> (\<not> fails SelectRfidUser \<and> fails SelectUserDetails \<and>
          w' = \<lparr>db = d, emitted = [ScanEvent (ev0\<lparr>ev_status := Some ERROR\<rparr>)],
                console = [failed SelectUserDetails],
                issued = [SelectRfidUser, SelectUserDetails]\<rparr>)
       \<or> (\<not> fails SelectRfidUser \<and> \<not> fails SelectUserDetails \<and>
          w' = \<lparr>db = d, emitted = [ScanEvent (ev0\<lparr>ev_status := Some NO_DETAILS\<rparr>)],
                console = [], issued = [SelectRfidUser, SelectUserDetails]\<rparr>)
       \<or> (\<not> fails SelectRfidUser \<and> \<not> fails SelectUserDetails \<and> fails SelectOpenLogins \<and>
          w' = \<lparr>db = d, emitted = [ScanEvent (ev1\<lparr>ev_status := Some ERROR\<rparr>)],
                console = [failed SelectOpenLogins],
                issued = [SelectRfidUser, SelectUserDetails, SelectOpenLogins]\<rparr>)
       \<or> (\<not> fails SelectRfidUser \<and> \<not> fails SelectUserDetails \<and> \<not> fails SelectOpenLogins \<and>
          fails UpdateLogoutTime \<and>
          w' = \<lparr>db = d, emitted = [ScanEvent (ev1\<lparr>ev_status := Some ERROR\<rparr>)],
                console = [failed UpdateLogoutTime],
                issued = [SelectRfidUser, SelectUserDetails, SelectOpenLogins, UpdateLogoutTime]\<rparr>)
       \<or> (\<not> fails SelectRfidUser \<and> \<not> fails SelectUserDetails \<and> \<not> fails SelectOpenLogins \<and>
          \<not> fails UpdateLogoutTime \<and> select_open_logins user_id currentDate d \<noteq> [] \<and>
          w' = \<lparr>db = update_logout_time currentTime
                       (hd (select_open_logins user_id currentDate d)) d,
                emitted = [ScanEvent (ev2\<lparr>ev_status := Some LOGOUT\<rparr>)],
                console = [],
                issued = [SelectRfidUser, SelectUserDetails, SelectOpenLogins, UpdateLogoutTime]\<rparr>)
       \<or> (\<not> fails SelectRfidUser \<and> \<not> fails SelectUserDetails \<and> \<not> fails SelectOpenLogins \<and>
          fails InsertLogin \<and>
          w' = \<lparr>db = d, emitted = [ScanEvent (ev1\<lparr>ev_status := Some ERROR\<rparr>)],
                console = [failed InsertLogin],
                issued = [SelectRfidUser, SelectUserDetails, SelectOpenLogins, InsertLogin]\<rparr>)
       \<or> (\<not> fails SelectRfidUser \<and> \<not> fails SelectUserDetails \<and> \<not> fails SelectOpenLogins \<and>
          \<not> fails InsertLogin \<and> fails SelectBranchCounts \<and>
          w' = \<lparr>db = logged_in,
                emitted = [ScanEvent (ev2\<lparr>ev_status := Some LOGIN\<rparr>),
                           ScanEvent (ev2\<lparr>ev_status := Some ERROR\<rparr>)],
                console = [failed SelectBranchCounts],
                issued = [SelectRfidUser, SelectUserDetails, SelectOpenLogins, InsertLogin,
                          SelectBranchCounts]\<rparr>)
       \<or> (\<not> fails SelectRfidUser \<and> \<not> fails SelectUserDetails \<and> \<not> fails SelectOpenLogins \<and>
          \<not> fails InsertLogin \<and> \<not> fails SelectBranchCounts \<and>
          branch_counts_of today logged_in = Inl TypeError \<and>
          w' = \<lparr>db = logged_in,
                emitted = [ScanEvent (ev2\<lparr>ev_status := Some LOGIN\<rparr>),
                           ScanEvent (ev2\<lparr>ev_status := Some ERROR\<rparr>)],
                console = [ConsoleError ''DB/Logic Error:'' TypeError],
                issued = [SelectRfidUser, SelectUserDetails, SelectOpenLogins, InsertLogin,
                          SelectBranchCounts]\<rparr>)
       \<or> (\<not> fails SelectRfidUser \<and> \<not> fails SelectUserDetails \<and> \<not> fails SelectOpenLogins \<and>
          \<not> fails InsertLogin \<and> \<not> fails SelectBranchCounts \<and>
          (\<exists>counts. branch_counts_of today logged_in = Inr counts \<and>
             w' = \<lparr>db = logged_in,
                   emitted = [ScanEvent (ev2\<lparr>ev_status := Some LOGIN\<rparr>), CountsUpdate counts],
                   console = [],
                   issued = [SelectRfidUser, SelectUserDetails, SelectOpenLogins, InsertLogin,
                             SelectBranchCounts]\<rparr>))"
  unfolding w'_def user_id_def ev0_def ev1_def ev2_def failed_def logged_in_def
  by (auto simp add: handleCardScan_def dbPool_query_def reading_def writing_def
      getTodayBranchCounts_def io_emit_def new_event_data_def catch_block_def console_write_def
      branch_counts_of_def world_of_def Let_def
      split: sum.splits dest: group_by_degree_error)

text \<open>
  A scan keeps \<open>log_id\<close> a key of \<open>attendance_log\<close>: the update leaves the keys as
  they are, and the insertion adds a new one.
\<close>

lemma update_logout_time_ids:
  "map al_log_id (attendance_log (update_logout_time time log_id d)) =
   map al_log_id (attendance_log d)"
  by (simp add: update_logout_time_def comp_def if_distrib[where f="\<lambda>r. al_log_id r"]
      cong: if_cong)

lemma insert_login_ids:
  "distinct (map al_log_id (attendance_log d)) \<Longrightarrow>
   distinct (map al_log_id (attendance_log (insert_login user_id date time d)))"
  using next_log_id_fresh[of "attendance_log d"] by (simp add: insert_login_def)

lemma handleCardScan_keeps_key:
  assumes "distinct (map al_log_id (attendance_log d))"
  shows "distinct (map al_log_id (attendance_log
           (db (snd (handleCardScan fails currentDate currentTime today uid (world_of d))))))"
  using handleCardScan_outcomes(2)[of fails currentDate currentTime today uid d] assms
  by (elim disjE conjE exE) (simp_all add: update_logout_time_ids insert_login_ids)

section \<open>The login and logout toggle\<close>

text \<open>
  C1. Let the scanned tag be bound in \<open>rfid_details\<close> (the first binding names the user),
  let a row of \<open>users\<close> have that user's id, let \<open>log_id\<close> be a key of
  \<open>attendance_log\<close>, and let none of the queries for the binding, the details, the open
  session, the update and the insertion throw. Then one condition decides: if the user
  has a row of the current date without logout time, one such row gets the current time
  as logout time, nothing else changes, and the one event sent is a \<open>scan_event\<close> with
  status LOGOUT; otherwise a row with a new key, the user, the current date, the current
  time as login time and no logout time is appended, and the first event sent is a
  \<open>scan_event\<close> with status LOGIN, followed by no other \<open>scan_event\<close> but one with
  status ERROR.
\<close>

theorem handleCardScan_toggle:
  assumes "\<not> fails SelectRfidUser" "\<not> fails SelectUserDetails" "\<not> fails SelectOpenLogins"
    "\<not> fails UpdateLogoutTime" "\<not> fails InsertLogin"
    and bound: "find (\<lambda>r. r_uid r = uid) (rfid_details (db w)) = Some binding"
    and user: "user \<in> set (users (db w))" "u_user_id user = r_user_id binding"
    and key: "distinct (map al_log_id (attendance_log (db w)))"
  shows "if \<exists>row\<in>set (attendance_log (db w)). open_session (r_user_id binding) currentDate row
         then (\<exists>row\<in>set (attendance_log (db w)).
                 open_session (r_user_id binding) currentDate row \<and>
                 db (snd (handleCardScan fails currentDate currentTime today uid w)) =
                   (db w)\<lparr>attendance_log :=
                     map (\<lambda>r. if r = row then r\<lparr>al_logout_time := Some currentTime\<rparr> else r)
                       (attendance_log (db w))\<rparr>) \<and>
              (\<exists>ev. emitted (snd (handleCardScan fails currentDate currentTime today uid w)) =
                      emitted w @ [ScanEvent ev] \<and>
                    ev_uid ev = uid \<and> ev_status ev = Some LOGOUT \<and> ev_time ev = Some currentTime)
         else db (snd (handleCardScan fails currentDate currentTime today uid w)) =
                (db w)\<lparr>attendance_log := attendance_log (db w) @
                   [\<lparr>al_log_id = next_log_id (attendance_log (db w)),
                     al_user_id = r_user_id binding, al_log_date = currentDate,
                     al_login_time = currentTime, al_logout_time = None\<rparr>]\<rparr> \<and>
              next_log_id (attendance_log (db w)) \<notin> al_log_id ` set (attendance_log (db w)) \<and>
              (\<exists>ev rest. emitted (snd (handleCardScan fails currentDate currentTime today uid w)) =
                      emitted w @ ScanEvent ev # rest \<and>
                    ev_uid ev = uid \<and> ev_status ev = Some LOGIN \<and> ev_time ev = Some currentTime \<and>
                    (\<forall>ev'. ScanEvent ev' \<in> set rest \<longrightarrow> ev_status ev' = Some ERROR))"
proof -
  from bound obtain others where rf: "select_rfid_user uid (db w) = r_user_id binding # others"
    using select_rfid_user_find by blast
  from user obtain det dets where ud: "select_user_details (r_user_id binding) (db w) = det # dets"
    using select_user_details_nonempty[of user "db w" "r_user_id binding"]
    by (cases "select_user_details (r_user_id binding) (db w)") auto
  show ?thesis
  proof (cases "\<exists>row\<in>set (attendance_log (db w)). open_session (r_user_id binding) currentDate row")
    case True
    then obtain row where row: "row \<in> set (attendance_log (db w))"
      "open_session (r_user_id binding) currentDate row"
      "select_open_logins (r_user_id binding) currentDate (db w) = [al_log_id row]"
      using select_open_logins_some by blast
    have "handleCardScan fails currentDate currentTime today uid w =
      (Fulfilled,
       w\<lparr>db := update_logout_time currentTime (al_log_id row) (db w),
         emitted := emitted w @
           [ScanEvent \<lparr>ev_uid = uid, ev_status = Some LOGOUT, ev_details = Some det,
                        ev_time = Some currentTime, ev_message = None\<rparr>],
         issued := issued w @ [SelectRfidUser, SelectUserDetails, SelectOpenLogins, UpdateLogoutTime]\<rparr>)"
      using assms(1-4) rf ud row(3) by (rule handleCardScan_logout_path)
    then show ?thesis
      using True row(1,2) update_logout_time_row[OF key row(1), of currentTime]
      by auto
  next
    case False
    then have op: "select_open_logins (r_user_id binding) currentDate (db w) = []"
      by (rule select_open_logins_none)
    from handleCardScan_login_path[OF assms(1-3) assms(5) rf ud op, of currentTime today]
    show ?thesis
      using False next_log_id_fresh[of "attendance_log (db w)"]
      by (auto simp: insert_login_def split: sum.splits if_splits)
  qed
qed

theorem handleCardScan_toggle_witness:
  "attendance_log (db (snd (handleCardScan no_faults ''2025-03-10'' ''09:15:00'' ''2025-03-10''
      ''04 A3 2B 1C'' (world_of example_db)))) = [example_open_row] \<and>
   attendance_log (db (snd (handleCardScan no_faults ''2025-03-10'' ''17:40:00'' ''2025-03-10''
      ''04 A3 2B 1C'' (world_of example_db_open)))) =
     [example_open_row\<lparr>al_logout_time := Some ''17:40:00''\<rparr>]"
proof -
  have f: "\<not> no_faults SelectRfidUser" "\<not> no_faults SelectUserDetails" "\<not> no_faults SelectOpenLogins"
    "\<not> no_faults UpdateLogoutTime" "\<not> no_faults InsertLogin"
    by (simp_all add: no_faults_def)
  have b: "find (\<lambda>r. r_uid r = ''04 A3 2B 1C'') (rfid_details (db (world_of example_db))) =
      Some \<lparr>r_user_id = ''21CS001'', r_uid = ''04 A3 2B 1C''\<rparr>"
    "find (\<lambda>r. r_uid r = ''04 A3 2B 1C'') (rfid_details (db (world_of example_db_open))) =
      Some \<lparr>r_user_id = ''21CS001'', r_uid = ''04 A3 2B 1C''\<rparr>"
    by (simp_all add: example_defs world_of_def)
  have u: "hd (users example_db) \<in> set (users (db (world_of example_db)))"
    "hd (users example_db) \<in> set (users (db (world_of example_db_open)))"
    "u_user_id (hd (users example_db)) = r_user_id \<lparr>r_user_id = ''21CS001'', r_uid = ''04 A3 2B 1C''\<rparr>"
    by (simp_all add: example_defs world_of_def)
  have k: "distinct (map al_log_id (attendance_log (db (world_of example_db))))"
    "distinct (map al_log_id (attendance_log (db (world_of example_db_open))))"
    by (simp_all add: example_defs world_of_def)
  have closed: "\<not> (\<exists>row\<in>set (attendance_log (db (world_of example_db))).
      open_session (r_user_id \<lparr>r_user_id = ''21CS001'', r_uid = ''04 A3 2B 1C''\<rparr>) ''2025-03-10'' row)"
    by (simp add: example_defs world_of_def)
  have opened: "\<exists>row\<in>set (attendance_log (db (world_of example_db_open))).
      open_session (r_user_id \<lparr>r_user_id = ''21CS001'', r_uid = ''04 A3 2B 1C''\<rparr>) ''2025-03-10'' row"
    by (simp add: example_defs world_of_def open_session_def)
  from handleCardScan_toggle[where fails=no_faults, OF f b(1) u(1) u(3) k(1),
      of "''2025-03-10''" "''09:15:00''" "''2025-03-10''"] closed
  have 1: "attendance_log (db (snd (handleCardScan no_faults ''2025-03-10'' ''09:15:00'' ''2025-03-10''
      ''04 A3 2B 1C'' (world_of example_db)))) = [example_open_row]"
    by (simp add: example_defs world_of_def next_log_id_def)
  from handleCardScan_toggle[where fails=no_faults, OF f b(2) u(2) u(3) k(2),
      of "''2025-03-10''" "''17:40:00''" "''2025-03-10''"] opened
  have 2: "attendance_log (db (snd (handleCardScan no_faults ''2025-03-10'' ''17:40:00'' ''2025-03-10''
      ''04 A3 2B 1C'' (world_of example_db_open)))) =
     [example_open_row\<lparr>al_logout_time := Some ''17:40:00''\<rparr>]"
    by (auto simp add: example_defs world_of_def)
  from 1 2 show ?thesis by simp
qed

section \<open>Branch counts and logout\<close>

text \<open>
  C3. Let \<open>log_id\<close> be a key of \<open>attendance_log\<close>, and let a scan start from a world in
  which nothing has been sent. If the scan sends a \<open>scan_event\<close> with status LOGOUT, the
  database differs from the one before in the logout time of one row of
  \<open>attendance_log\<close> only, the query of \<open>getTodayBranchCounts\<close> and the grouping of its
  rows give for every date what they gave before, and no \<open>counts_update\<close> is sent.
  Whenever a \<open>counts_update\<close> is sent, a \<open>scan_event\<close> with status LOGIN is sent too, and
  the payload is what the grouping gives on the database as the scan leaves it, for the
  date that \<open>getTodayBranchCounts\<close> read. Both hold whichever queries throw.
\<close>

theorem logout_leaves_counts:
  assumes key: "distinct (map al_log_id (attendance_log d))"
  shows "let w' = snd (handleCardScan fails currentDate currentTime today uid (world_of d)) in
    ((\<exists>ev. ScanEvent ev \<in> set (emitted w') \<and> ev_status ev = Some LOGOUT) \<longrightarrow>
       (\<exists>row\<in>set (attendance_log d).
          db w' = d\<lparr>attendance_log :=
                     map (\<lambda>r. if r = row then r\<lparr>al_logout_time := Some currentTime\<rparr> else r)
                       (attendance_log d)\<rparr>) \<and>
       (\<forall>day. select_branch_counts day (db w') = select_branch_counts day d \<and>
              branch_counts_of day (db w') = branch_counts_of day d) \<and>
       (\<forall>counts. CountsUpdate counts \<notin> set (emitted w'))) \<and>
    (\<forall>counts. CountsUpdate counts \<in> set (emitted w') \<longrightarrow>
       (\<exists>ev. ScanEvent ev \<in> set (emitted w') \<and> ev_status ev = Some LOGIN) \<and>
       branch_counts_of today (db w') = Inr counts)"
proof -
  define w' where "w' = snd (handleCardScan fails currentDate currentTime today uid (world_of d))"
  define user_id where "user_id = hd (select_rfid_user uid d)"
  have logout: "\<exists>row\<in>set (attendance_log d).
      update_logout_time currentTime (hd (select_open_logins user_id currentDate d)) d =
        d\<lparr>attendance_log :=
             map (\<lambda>r. if r = row then r\<lparr>al_logout_time := Some currentTime\<rparr> else r) (attendance_log d)\<rparr>"
    if "select_open_logins user_id currentDate d \<noteq> []"
  proof -
    from hd_select_open_logins[OF that] obtain row where
      row: "row \<in> set (attendance_log d)"
        "hd (select_open_logins user_id currentDate d) = al_log_id row"
      by blast
    show ?thesis using update_logout_time_row[OF key row(1)] row by auto
  qed
  have same: "select_branch_counts day (update_logout_time currentTime i d) = select_branch_counts day d \<and>
      branch_counts_of day (update_logout_time currentTime i d) = branch_counts_of day d" for day i
    unfolding update_logout_time_def
    using branch_counts_logout[where day=day and d=d and P="\<lambda>r. al_log_id r = i" and t="\<lambda>r. Some currentTime"] by simp
  show ?thesis
    unfolding Let_def w'_def[symmetric]
    using handleCardScan_outcomes(2)[of fails currentDate currentTime today uid d, folded w'_def user_id_def]
    by (elim disjE conjE exE) (auto simp: logout same)
qed

lemma example_logout_run:
  "emitted (snd (handleCardScan no_faults ''2025-03-10'' ''17:40:00'' ''2025-03-10''
      ''04 A3 2B 1C'' (world_of example_db_open))) =
     [ScanEvent \<lparr>ev_uid = ''04 A3 2B 1C'', ev_status = Some LOGOUT,
                  ev_details = Some (hd (select_user_details ''21CS001'' example_db_open)),
                  ev_time = Some ''17:40:00'', ev_message = None\<rparr>]"
proof -
  have 1: "select_rfid_user ''04 A3 2B 1C'' (db (world_of example_db_open)) = [''21CS001'']"
    by (simp add: select_rfid_user_def example_defs world_of_def)
  obtain det dets where 2: "select_user_details ''21CS001'' (db (world_of example_db_open)) = det # dets"
    using select_user_details_nonempty[of "hd (users example_db)" "db (world_of example_db_open)" "''21CS001''"]
    by (cases "select_user_details ''21CS001'' (db (world_of example_db_open))")
       (auto simp: example_defs world_of_def)
  have 3: "select_open_logins ''21CS001'' ''2025-03-10'' (db (world_of example_db_open)) = [1]"
    by (simp add: select_open_logins_def open_session_def example_defs world_of_def)
  have f: "\<not> no_faults SelectRfidUser" "\<not> no_faults SelectUserDetails" "\<not> no_faults SelectOpenLogins"
    "\<not> no_faults UpdateLogoutTime"
    by (simp_all add: no_faults_def)
  from handleCardScan_logout_path[where fails=no_faults, OF f 1 2 3, of "''17:40:00''" "''2025-03-10''"] 2
  show ?thesis by (simp add: world_of_def)
qed

theorem logout_leaves_counts_witness:
  "distinct (map al_log_id (attendance_log example_db_open)) \<and>
   (\<forall>day. branch_counts_of day
            (db (snd (handleCardScan no_faults ''2025-03-10'' ''17:40:00'' ''2025-03-10''
               ''04 A3 2B 1C'' (world_of example_db_open)))) =
          branch_counts_of day example_db_open)"
proof -
  have k: "distinct (map al_log_id (attendance_log example_db_open))"
    by (simp add: example_defs)
  from logout_leaves_counts[OF k, of no_faults "''2025-03-10''" "''17:40:00''" "''2025-03-10''"
      "''04 A3 2B 1C''"] k
  show ?thesis
    unfolding Let_def example_logout_run by simp
qed

section \<open>Scans of unknown tags\<close>

text \<open>
  C6. When the query for the binding does not throw and no row of \<open>rfid_details\<close> has the
  scanned tag, \<open>handleCardScan\<close> sends one event, the \<open>scan_event\<close> with the tag and the
  status UNREGISTERED, and returns: that query is the only one it has issued, nothing is
  logged, and the database is the one before the scan.
\<close>

theorem handleCardScan_unregistered:
  assumes "\<not> fails SelectRfidUser"
    and "\<forall>r\<in>set (rfid_details d). r_uid r \<noteq> uid"
  shows "handleCardScan fails currentDate currentTime today uid (world_of d) =
           (Fulfilled,
            \<lparr>db = d,
             emitted = [ScanEvent \<lparr>ev_uid = uid, ev_status = Some UNREGISTERED, ev_details = None,
                                   ev_time = None, ev_message = None\<rparr>],
             console = [],
             issued = [SelectRfidUser]\<rparr>)"
  using assms
  by (simp add: handleCardScan_def dbPool_query_def reading_def select_rfid_user_empty
      world_of_def io_emit_def new_event_data_def)

theorem handleCardScan_unregistered_witness:
  "\<not> no_faults SelectRfidUser \<and>
   handleCardScan no_faults ''2025-03-10'' ''09:15:00'' ''2025-03-10'' ''FF FF FF FF'' (world_of example_db) =
     (Fulfilled,
      \<lparr>db = example_db,
       emitted = [ScanEvent \<lparr>ev_uid = ''FF FF FF FF'', ev_status = Some UNREGISTERED,
                             ev_details = None, ev_time = None, ev_message = None\<rparr>],
       console = [], issued = [SelectRfidUser]\<rparr>)"
proof -
  have h1: "\<not> no_faults SelectRfidUser" by (simp add: no_faults_def)
  have h2: "\<forall>r\<in>set (rfid_details example_db). r_uid r \<noteq> ''FF FF FF FF''"
    by (simp add: example_db_def)
  from handleCardScan_unregistered[where fails=no_faults and d=example_db
      and uid="''FF FF FF FF''", OF h1 h2] h1 h2 show ?thesis by blast
qed

section \<open>Queries that throw\<close>

text \<open>
  C7. Let a query of \<open>handleCardScan\<close> throw: a site that throws has been issued in a run
  from a fresh world. Then the promise is fulfilled, not rejected; the one line logged is
  the error of that query; that query is the last one issued and no query is issued twice;
  and a \<open>scan_event\<close> with the tag and the status ERROR is the last event sent. When the
  query that throws is the one of \<open>getTodayBranchCounts\<close>, the row of the login stays
  inserted and the LOGIN event has been sent before; in every other case the database is
  the one before the scan and the ERROR event is the only event.
\<close>

theorem handleCardScan_query_failure:
  assumes "fails q"
    and "q \<in> set (issued (snd (handleCardScan fails currentDate currentTime today uid (world_of d))))"
  shows "let result = fst (handleCardScan fails currentDate currentTime today uid (world_of d));
             w' = snd (handleCardScan fails currentDate currentTime today uid (world_of d)) in
    result = Fulfilled \<and>
    console w' = [ConsoleError ''DB/Logic Error:'' (DbError q)] \<and>
    last (issued w') = q \<and> distinct (issued w') \<and>
    (if q = SelectBranchCounts
     then db w' = insert_login (hd (select_rfid_user uid d)) currentDate currentTime d \<and>
          (\<exists>ev ev'. emitted w' = [ScanEvent ev, ScanEvent ev'] \<and>
             ev_uid ev = uid \<and> ev_status ev = Some LOGIN \<and>
             ev_uid ev' = uid \<and> ev_status ev' = Some ERROR)
     else db w' = d \<and>
          (\<exists>ev. emitted w' = [ScanEvent ev] \<and> ev_uid ev = uid \<and> ev_status ev = Some ERROR))"
proof -
  define w' where "w' = snd (handleCardScan fails currentDate currentTime today uid (world_of d))"
  show ?thesis
    unfolding Let_def w'_def[symmetric]
    using handleCardScan_outcomes(2)[of fails currentDate currentTime today uid d, folded w'_def]
      handleCardScan_outcomes(1)[of fails currentDate currentTime today uid d]
      assms[folded w'_def]
    by (elim disjE conjE exE) (auto simp: new_event_data_def)
qed

lemma example_failing_run:
  "issued (snd (handleCardScan open_logins_fails ''2025-03-10'' ''09:15:00'' ''2025-03-10''
      ''04 A3 2B 1C'' (world_of example_db))) =
     [SelectRfidUser, SelectUserDetails, SelectOpenLogins]"
proof -
  have 1: "select_rfid_user ''04 A3 2B 1C'' example_db = [''21CS001'']"
    by (simp add: select_rfid_user_def example_defs)
  have 2: "select_user_details ''21CS001'' example_db \<noteq> []"
    by (rule select_user_details_nonempty[of "hd (users example_db)"])
       (simp_all add: example_defs)
  show ?thesis
    using 2
    by (simp add: handleCardScan_def dbPool_query_def reading_def world_of_def 1
        open_logins_fails_def catch_block_def io_emit_def console_write_def)
qed

theorem handleCardScan_query_failure_witness:
  "open_logins_fails SelectOpenLogins \<and>
   db (snd (handleCardScan open_logins_fails ''2025-03-10'' ''09:15:00'' ''2025-03-10''
      ''04 A3 2B 1C'' (world_of example_db))) = example_db \<and>
   console (snd (handleCardScan open_logins_fails ''2025-03-10'' ''09:15:00'' ''2025-03-10''
      ''04 A3 2B 1C'' (world_of example_db))) =
     [ConsoleError ''DB/Logic Error:'' (DbError SelectOpenLogins)]"
proof -
  have h1: "open_logins_fails SelectOpenLogins" by (simp add: open_logins_fails_def)
  have h2: "SelectOpenLogins \<in> set (issued (snd (handleCardScan open_logins_fails ''2025-03-10''
      ''09:15:00'' ''2025-03-10'' ''04 A3 2B 1C'' (world_of example_db))))"
    by (simp add: example_failing_run)
  from handleCardScan_query_failure[where fails=open_logins_fails, OF h1 h2] h1
  show ?thesis unfolding Let_def by simp
qed

section \<open>The daily logout\<close>

lemma autoLogoutCurrentDay_db:
  "\<not> fails AutoLogout \<Longrightarrow>
   db (snd (autoLogoutCurrentDay fails today w)) =
     snd (update_open_sessions ''19:00:00'' today (db w))"
  by (simp add: autoLogoutCurrentDay_def dbPool_query_def console_write_def Let_def)

text \<open>
  C5. When its query does not throw, \<open>autoLogoutCurrentDay\<close> changes \<open>attendance_log\<close>
  and no other table; the table keeps its length, and row by row: a row of the current
  date without logout time becomes the same row with logout time \<open>19:00:00\<close>, every other
  row stays as it is. Afterwards no row of the current date is without logout time.
\<close>

theorem autoLogoutCurrentDay_effect:
  assumes "\<not> fails AutoLogout"
  shows "let w' = snd (autoLogoutCurrentDay fails today w);
             old = attendance_log (db w); new = attendance_log (db w') in
     db w' = (db w)\<lparr>attendance_log := new\<rparr> \<and>
     length new = length old \<and>
     (\<forall>i<length old.
        new ! i = (if al_log_date (old ! i) = today \<and> al_logout_time (old ! i) = None
                   then (old ! i)\<lparr>al_logout_time := Some ''19:00:00''\<rparr> else old ! i)) \<and>
     (\<forall>row\<in>set new. al_log_date row = today \<longrightarrow> al_logout_time row \<noteq> None)"
proof -
  define f where "f = (\<lambda>row::attendance_row. if al_log_date row = today \<and> al_logout_time row = None
                             then row\<lparr>al_logout_time := Some ''19:00:00''\<rparr> else row)"
  have d: "db (snd (autoLogoutCurrentDay fails today w)) =
             (db w)\<lparr>attendance_log := map f (attendance_log (db w))\<rparr>"
    using autoLogoutCurrentDay_db[where fails=fails and today=today and w=w, OF assms]
    by (simp add: update_open_sessions_def f_def)
  have closed: "al_log_date (f row) = today \<longrightarrow> al_logout_time (f row) \<noteq> None" for row
    by (simp add: f_def)
  have "\<forall>row\<in>set (map f (attendance_log (db w))). al_log_date row = today \<longrightarrow> al_logout_time row \<noteq> None"
    using closed by auto
  moreover have "\<forall>i<length (attendance_log (db w)).
      map f (attendance_log (db w)) ! i =
        (if al_log_date (attendance_log (db w) ! i) = today \<and> al_logout_time (attendance_log (db w) ! i) = None
         then (attendance_log (db w) ! i)\<lparr>al_logout_time := Some ''19:00:00''\<rparr>
         else attendance_log (db w) ! i)"
    by (simp add: f_def)
  ultimately show ?thesis
    unfolding Let_def d by simp
qed

theorem autoLogoutCurrentDay_effect_witness:
  "\<not> no_faults AutoLogout \<and>
   attendance_log (db (snd (autoLogoutCurrentDay no_faults ''2025-03-10'' (world_of example_db_open)))) =
     [example_open_row\<lparr>al_logout_time := Some ''19:00:00''\<rparr>]"
proof -
  have h: "\<not> no_faults AutoLogout" by (simp add: no_faults_def)
  have l: "length (attendance_log (db (world_of example_db_open))) = 1"
    by (simp add: world_of_def example_db_open_def)
  from autoLogoutCurrentDay_effect[where fails=no_faults and today="''2025-03-10''"
      and w="world_of example_db_open", OF h] h
  show ?thesis
    unfolding Let_def
    by (auto simp: world_of_def example_db_open_def example_open_row_def example_db_def length_Suc_conv)
qed

section \<open>Changing the card of a user\<close>

lemma select_uid_owner_empty:
  "select_uid_owner n u d = [] \<longleftrightarrow> \<not> (\<exists>r\<in>set (rfid_details d). r_uid r = n \<and> r_user_id r \<noteq> u)"
  by (auto simp: select_uid_owner_def filter_empty_conv)

lemma hd_select_uid_owner:
  "select_uid_owner n u d \<noteq> [] \<Longrightarrow> hd (select_uid_owner n u d) \<noteq> u"
proof -
  assume "select_uid_owner n u d \<noteq> []"
  then have "hd (select_uid_owner n u d) \<in> set (select_uid_owner n u d)" by simp
  then show ?thesis by (auto simp: select_uid_owner_def)
qed

lemma update_transaction_commits:
  assumes "update_transaction fails u new_uid w = (Inr x, w1)"
  shows "db w1 = (db w)\<lparr>rfid_details :=
             filter (\<lambda>r. r_user_id r \<noteq> u) (rfid_details (db w)) @
             (if truthy_string new_uid then [\<lparr>r_user_id = u, r_uid = the new_uid\<rparr>] else [])\<rparr> \<and>
         \<not> (truthy_string new_uid \<and>
            (\<exists>r\<in>set (rfid_details (db w)). r_uid r = the new_uid \<and> r_user_id r \<noteq> u))"
  using assms
  by (auto simp: update_transaction_def dbPool_query_def reading_def writing_def
      delete_rfid_def insert_rfid_def select_uid_owner_empty
      split: if_splits)

lemma update_transaction_succeeds:
  assumes "\<not> (truthy_string new_uid \<and>
            (\<exists>r\<in>set (rfid_details (db w)). r_uid r = the new_uid \<and> r_user_id r \<noteq> u))"
    and "\<forall>site. \<not> fails site"
  shows "\<exists>w1. update_transaction fails u new_uid w = (Inr (), w1)"
  using assms
  by (auto simp: update_transaction_def dbPool_query_def reading_def writing_def
      select_uid_owner_empty)

lemma edit_rfid_update_cases:
  assumes "u \<noteq> []"
  shows "(\<exists>e w1. update_transaction fails u new_uid w = (Inl e, w1) \<and>
            edit_rfid_update fails (Some u) new_uid w =
              (RedirectUpdateFailed e u,
               console_write (ConsoleError ''RFID Update Error:'' e) (w1\<lparr>db := db w\<rparr>))) \<or>
         (\<exists>w1. update_transaction fails u new_uid w = (Inr (), w1) \<and>
            edit_rfid_update fails (Some u) new_uid w = (RedirectUpdated u, w1))"
proof (cases "update_transaction fails u new_uid w")
  case (Pair r w1)
  then show ?thesis using assms
    by (cases r) (simp_all add: edit_rfid_update_def truthy_string_def)
qed

lemma rebound_user_once:
  "length (filter (\<lambda>r. r_user_id r = u)
     (filter (\<lambda>r. r_user_id r \<noteq> u) old @ extra)) = length (filter (\<lambda>r. r_user_id r = u) extra)"
  by (induction old) auto

lemma rebound_uid_once:
  "\<not> (\<exists>r\<in>set old. r_uid r = n \<and> r_user_id r \<noteq> u) \<Longrightarrow>
   filter (\<lambda>r. r_uid r = n) (filter (\<lambda>r. r_user_id r \<noteq> u) old @ [\<lparr>r_user_id = u, r_uid = n\<rparr>]) =
     [\<lparr>r_user_id = u, r_uid = n\<rparr>]"
  by (induction old) auto

text \<open>
  C8. Let the form carry a user id \<open>u\<close> that is not empty. The new tag is taken when the
  form carries one, not empty, that \<open>rfid_details\<close> binds to another user. The handler
  either answers with the redirection for success and leaves \<open>rfid_details\<close> without the
  former bindings of \<open>u\<close> and, when the form carries a tag, with the one binding of \<open>u\<close> to
  it at the end, or answers with the redirection for an error and leaves the database as
  it was. When the tag is taken it is the second; when the tag is not taken and no call
  throws it is the first. After the redirection for success \<open>u\<close> has at most one binding,
  the new tag has exactly the binding to \<open>u\<close>, and if no user, or no tag, was bound twice
  before, none is afterwards.
\<close>

theorem edit_rfid_update_atomic_unique:
  assumes "u \<noteq> []"
  shows "let old = rfid_details (db w);
             taken = (truthy_string new_uid \<and> (\<exists>r\<in>set old. r_uid r = the new_uid \<and> r_user_id r \<noteq> u));
             new = filter (\<lambda>r. r_user_id r \<noteq> u) old @
                   (if truthy_string new_uid then [\<lparr>r_user_id = u, r_uid = the new_uid\<rparr>] else []);
             response = fst (edit_rfid_update fails (Some u) new_uid w);
             w' = snd (edit_rfid_update fails (Some u) new_uid w)
         in (response = RedirectUpdated u \<and> db w' = (db w)\<lparr>rfid_details := new\<rparr> \<or>
             (\<exists>e. response = RedirectUpdateFailed e u) \<and> db w' = db w) \<and>
            (taken \<longrightarrow> (\<exists>e. response = RedirectUpdateFailed e u) \<and> db w' = db w) \<and>
            (\<not> taken \<and> (\<forall>site. \<not> fails site) \<longrightarrow>
               response = RedirectUpdated u \<and> db w' = (db w)\<lparr>rfid_details := new\<rparr>) \<and>
            (response = RedirectUpdated u \<longrightarrow>
               length (filter (\<lambda>r. r_user_id r = u) (rfid_details (db w'))) \<le> 1 \<and>
               (truthy_string new_uid \<longrightarrow>
                  filter (\<lambda>r. r_uid r = the new_uid) (rfid_details (db w')) =
                    [\<lparr>r_user_id = u, r_uid = the new_uid\<rparr>]) \<and>
               (distinct (map r_user_id old) \<longrightarrow> distinct (map r_user_id (rfid_details (db w')))) \<and>
               (distinct (map r_uid old) \<longrightarrow> distinct (map r_uid (rfid_details (db w')))))"
proof -
  define old where "old = rfid_details (db w)"
  define taken where
    "taken \<longleftrightarrow> truthy_string new_uid \<and> (\<exists>r\<in>set old. r_uid r = the new_uid \<and> r_user_id r \<noteq> u)"
  define new where
    "new = filter (\<lambda>r. r_user_id r \<noteq> u) old @
           (if truthy_string new_uid then [\<lparr>r_user_id = u, r_uid = the new_uid\<rparr>] else [])"
  define response where "response = fst (edit_rfid_update fails (Some u) new_uid w)"
  define w' where "w' = snd (edit_rfid_update fails (Some u) new_uid w)"
  have unique: "length (filter (\<lambda>r. r_user_id r = u) new) \<le> 1 \<and>
      (truthy_string new_uid \<longrightarrow>
         filter (\<lambda>r. r_uid r = the new_uid) new = [\<lparr>r_user_id = u, r_uid = the new_uid\<rparr>]) \<and>
      (distinct (map r_user_id old) \<longrightarrow> distinct (map r_user_id new)) \<and>
      (distinct (map r_uid old) \<longrightarrow> distinct (map r_uid new))" if "\<not> taken"
    using that unfolding new_def taken_def
    by (auto simp: rebound_user_once rebound_uid_once distinct_map_filter
        simp del: filter_append)
  from edit_rfid_update_cases[OF assms, of fails new_uid w]
  have "(response = RedirectUpdated u \<and> db w' = (db w)\<lparr>rfid_details := new\<rparr> \<or>
             (\<exists>e. response = RedirectUpdateFailed e u) \<and> db w' = db w) \<and>
            (taken \<longrightarrow> (\<exists>e. response = RedirectUpdateFailed e u) \<and> db w' = db w) \<and>
            (\<not> taken \<and> (\<forall>site. \<not> fails site) \<longrightarrow>
               response = RedirectUpdated u \<and> db w' = (db w)\<lparr>rfid_details := new\<rparr>) \<and>
            (response = RedirectUpdated u \<longrightarrow> \<not> taken \<and> rfid_details (db w') = new)"
  proof (elim disjE exE conjE)
    fix e w1
    assume t: "update_transaction fails u new_uid w = (Inl e, w1)"
      and r: "edit_rfid_update fails (Some u) new_uid w =
        (RedirectUpdateFailed e u, console_write (ConsoleError ''RFID Update Error:'' e) (w1\<lparr>db := db w\<rparr>))"
    have "\<not> (\<not> taken \<and> (\<forall>site. \<not> fails site))"
      using update_transaction_succeeds[of new_uid w u fails] t
      unfolding taken_def old_def by auto
    then show ?thesis
      using r unfolding response_def w'_def by (auto simp: console_write_def)
  next
    fix w1
    assume t: "update_transaction fails u new_uid w = (Inr (), w1)"
      and r: "edit_rfid_update fails (Some u) new_uid w = (RedirectUpdated u, w1)"
    from update_transaction_commits[OF t]
    have "db w1 = (db w)\<lparr>rfid_details := new\<rparr>" "\<not> taken"
      unfolding new_def taken_def old_def by auto
    then show ?thesis using r unfolding response_def w'_def by simp
  qed
  then show ?thesis
    unfolding Let_def old_def[symmetric] taken_def[symmetric] new_def[symmetric]
      response_def[symmetric] w'_def[symmetric]
    using unique by auto
qed

theorem edit_rfid_update_atomic_unique_witness:
  "''21CS001'' \<noteq> [] \<and>
   rfid_details (db (snd (edit_rfid_update no_faults (Some ''21CS001'') (Some ''5E 70 0A 3D'')
      (world_of example_db)))) =
     [\<lparr>r_user_id = ''F017'', r_uid = ''9C 11 0E 52''\<rparr>,
      \<lparr>r_user_id = ''21CS001'', r_uid = ''5E 70 0A 3D''\<rparr>]"
proof -
  have h: "''21CS001'' \<noteq> []" by simp
  have nf: "\<forall>site. \<not> no_faults site" by (simp add: no_faults_def)
  from edit_rfid_update_atomic_unique[OF h, of "world_of example_db" "Some ''5E 70 0A 3D''" no_faults] nf
  show ?thesis
    unfolding Let_def
    by (simp add: example_defs world_of_def truthy_string_def)
qed

section \<open>Routes behind the login\<close>

text \<open>
  C9. For every route of \<open>server.js\<close> that is registered with \<open>isAuthenticated\<close> and every
  request: the handler runs only if \<open>req.session.user\<close> is set, and when it is not set the
  request is redirected to \<open>/login?error=Please login to access this page.\<close> and the
  handler does not run. The routes \<open>/home\<close>, \<open>/reports/student\<close>, \<open>/reports/faculty\<close>,
  \<open>/manage-student\<close>, \<open>/manage-faculty\<close>, \<open>/edit-rfid\<close> and \<open>/manage-programs\<close> are
  registered with it. Seven routes are registered without it: \<open>GET /\<close>,
  \<open>GET /dashboard\<close>, \<open>GET /register\<close>, \<open>POST /add\<close>, \<open>GET /login\<close>, \<open>POST /login\<close> and
  \<open>GET /logout\<close>; their handlers run for every request, with a session or without.
\<close>

theorem guarded_routes_need_session:
  "(\<forall>r\<in>set routes. guarded r \<longrightarrow>
      (\<forall>req. (run_route_callbacks req (rt_callbacks r) = HandlerRan \<longrightarrow> req_session_user req \<noteq> None) \<and>
             (req_session_user req = None \<longrightarrow>
                run_route_callbacks req (rt_callbacks r) =
                  RedirectedTo ''/login?error=Please login to access this page.''))) \<and>
   (\<forall>path\<in>set [''/home'', ''/reports/student'', ''/reports/faculty'', ''/manage-student'',
                  ''/manage-faculty'', ''/edit-rfid'', ''/manage-programs''].
      \<exists>r\<in>set routes. rt_path r = path \<and> guarded r) \<and>
   map (\<lambda>r. (rt_method r, rt_path r)) (filter (\<lambda>r. \<not> guarded r) routes) =
     [(GET, ''/''), (GET, ''/dashboard''), (GET, ''/register''), (POST, ''/add''),
      (GET, ''/login''), (POST, ''/login''), (GET, ''/logout'')] \<and>
   (\<forall>r\<in>set routes. \<not> guarded r \<longrightarrow>
      (\<forall>req. run_route_callbacks req (rt_callbacks r) = HandlerRan))"
proof -
  have first: "run_route_callbacks req (IsAuthenticated # rest) = HandlerRan \<longrightarrow> req_session_user req \<noteq> None"
    "req_session_user req = None \<longrightarrow> run_route_callbacks req (IsAuthenticated # rest) =
        RedirectedTo ''/login?error=Please login to access this page.''" for req rest
    by (auto simp: isAuthenticated_def split: option.splits)
  have shape: "\<forall>r\<in>set routes. guarded r \<longrightarrow> (\<exists>rest. rt_callbacks r = IsAuthenticated # rest)"
    by (simp add: routes_def guarded_def)
  have 1: "\<forall>r\<in>set routes. guarded r \<longrightarrow>
      (\<forall>req. (run_route_callbacks req (rt_callbacks r) = HandlerRan \<longrightarrow> req_session_user req \<noteq> None) \<and>
             (req_session_user req = None \<longrightarrow>
                run_route_callbacks req (rt_callbacks r) =
                  RedirectedTo ''/login?error=Please login to access this page.''))"
    using shape first by metis
  have 2: "\<forall>path\<in>set [''/home'', ''/reports/student'', ''/reports/faculty'', ''/manage-student'',
                  ''/manage-faculty'', ''/edit-rfid'', ''/manage-programs''].
      \<exists>r\<in>set routes. rt_path r = path \<and> guarded r"
    by (simp add: routes_def guarded_def)
  have 3: "map (\<lambda>r. (rt_method r, rt_path r)) (filter (\<lambda>r. \<not> guarded r) routes) =
     [(GET, ''/''), (GET, ''/dashboard''), (GET, ''/register''), (POST, ''/add''),
      (GET, ''/login''), (POST, ''/login''), (GET, ''/logout'')]"
    by (simp add: routes_def guarded_def)
  have open_shape: "\<forall>r\<in>set routes. \<not> guarded r \<longrightarrow> rt_callbacks r = [Handler]"
    by (simp add: routes_def guarded_def)
  have 4: "\<forall>r\<in>set routes. \<not> guarded r \<longrightarrow>
      (\<forall>req. run_route_callbacks req (rt_callbacks r) = HandlerRan)"
    using open_shape by simp
  from 1 2 3 4 show ?thesis by blast
qed

theorem guarded_routes_need_session_witness:
  "home_route \<in> set routes \<and> guarded home_route \<and> req_session_user anonymous_request = None \<and>
   run_route_callbacks anonymous_request (rt_callbacks home_route) =
     RedirectedTo ''/login?error=Please login to access this page.'' \<and>
   add_route \<in> set routes \<and> \<not> guarded add_route \<and>
   run_route_callbacks anonymous_add_request (rt_callbacks add_route) = HandlerRan"
proof -
  have m: "home_route \<in> set routes" by (simp add: routes_def home_route_def)
  have g: "guarded home_route" by (simp add: guarded_def home_route_def)
  have n: "req_session_user anonymous_request = None" by (simp add: anonymous_request_def)
  have a: "add_route \<in> set routes" by (simp add: routes_def add_route_def)
  have u: "\<not> guarded add_route" by (simp add: guarded_def add_route_def)
  from guarded_routes_need_session m g n a u show ?thesis by blast
qed

text \<open>
  Without a session, a request to \<open>POST /add\<close> reaches the handler, and the handler binds
  the card \<open>9C 11 0E 52\<close> to the user \<open>F017\<close>: an RFID binding is made with no
  authenticated session.
\<close>

theorem add_binding_without_session:
  "add_route \<in> set routes \<and>
   req_session_user anonymous_add_request = None \<and>
   run_route_callbacks anonymous_add_request (rt_callbacks add_route) = HandlerRan \<and>
   post_add no_faults (Some ''F017'') (Some ''9C 11 0E 52'') (world_of example_db_unbound) =
     (RegisterSuccessful,
      \<lparr>db = example_db, emitted = [], console = [], issued = [RegisterBinding]\<rparr>)"
  by (simp add: add_route_def routes_def anonymous_add_request_def post_add_def truthy_string_def
      dbPool_query_def writing_def insert_rfid_def world_of_def no_faults_def
      example_db_unbound_def example_db_def)

text \<open>
  The headings of \<open>server.js\<close> agree with the registrations: every route under the
  heading of the admin routes is registered with the middleware, and no route under the
  heading of the public routes is.
\<close>

lemma headings_and_guards:
  "(\<forall>r\<in>set routes. rt_section r = AdminRoutes \<longrightarrow> guarded r) \<and>
   (\<forall>r\<in>set routes. rt_section r = PublicRoutes \<longrightarrow> \<not> guarded r)"
  by (simp add: routes_def guarded_def)

section \<open>Scan lines\<close>

lemma split_js_nonempty: "split_js sep s \<noteq> []"
  by (induction s) (auto split: list.splits)

lemma hd_split_js: "hd (split_js sep s) = takeWhile (\<lambda>c. c \<noteq> sep) s"
  by (induction s) (auto split: list.splits simp: split_js_nonempty)

lemma split_js_append:
  "sep \<notin> set xs \<Longrightarrow> split_js sep (xs @ sep # rest) = xs # split_js sep rest"
  by (induction xs) (auto split: list.splits)

lemma startsWith_append: "startsWith s p \<longleftrightarrow> (\<exists>rest. s = p @ rest)"
  unfolding startsWith_def
  by (metis append_eq_conv_conj append_take_drop_id)

lemma scan_line_pieces:
  assumes "startsWith line ''RFID Tag UID:''"
  shows "split_js CHR '':'' line =
           ''RFID Tag UID'' # split_js CHR '':'' (drop 13 line)"
proof -
  from assms obtain rest where l: "line = ''RFID Tag UID:'' @ rest"
    by (auto simp: startsWith_append)
  have "split_js CHR '':'' (''RFID Tag UID'' @ CHR '':'' # rest) =
          ''RFID Tag UID'' # split_js CHR '':'' rest"
    by (rule split_js_append) simp
  then show ?thesis by (simp add: l)
qed

text \<open>So \<open>line.split(":")[1]\<close> is there whenever the callback reads it.\<close>

lemma scan_line_second_piece:
  "startsWith line ''RFID Tag UID:'' \<Longrightarrow> 1 < length (split_js CHR '':'' line)"
  using split_js_nonempty[of "CHR '':''" "drop 13 line"]
  by (cases "split_js CHR '':'' (drop 13 line)") (simp_all add: scan_line_pieces)

text \<open>
  A line is a scan line exactly when it starts with \<open>RFID Tag UID:\<close>, and the tag is what
  stands between that prefix and the next colon, trimmed: the whole remainder when the
  remainder has no colon.
\<close>

lemma line_uid_eq:
  "line_uid line =
     (if startsWith line ''RFID Tag UID:''
      then Some (trim (takeWhile (\<lambda>c. c \<noteq> CHR '':'') (drop 13 line))) else None)"
proof (cases "startsWith line ''RFID Tag UID:''")
  case True
  have "split_js CHR '':'' line ! 1 = hd (split_js CHR '':'' (drop 13 line))"
    by (simp add: scan_line_pieces[OF True] hd_conv_nth split_js_nonempty)
  then show ?thesis using True by (simp add: line_uid_def hd_split_js)
next
  case False
  then show ?thesis by (simp add: line_uid_def)
qed

lemma line_uid_no_colon:
  assumes "startsWith line ''RFID Tag UID:''" and "CHR '':'' \<notin> set (drop 13 line)"
  shows "line_uid line = Some (trim (drop 13 line))"
proof -
  from assms(2) have "takeWhile (\<lambda>c. c \<noteq> CHR '':'') (drop 13 line) = drop 13 line"
    by auto
  with assms(1) show ?thesis by (simp only: line_uid_eq if_True)
qed

lemma on_data_line_uid:
  "on_data now line s =
     (case line_uid line of
        None \<Rightarrow> ([], s)
      | Some uid \<Rightarrow>
          if uid \<in> scannedRecently s then ([Emit (ignored_event uid)], s)
          else ([Call_handleCardScan uid],
                s\<lparr>scannedRecently := insert uid (scannedRecently s),
                  timers := timers s @ [(now + SCAN_TIMEOUT_MS, uid)]\<rparr>))"
  by (simp add: on_data_def line_uid_def Let_def)

text \<open>
  C4. On the line \<open>RFID Tag UID: 04:A3:2B:1C\<close>, which starts with the prefix, the
  callback calls \<open>handleCardScan\<close> with the tag \<open>04\<close>, while the remainder of the line
  after the prefix, trimmed, is \<open>04:A3:2B:1C\<close>.
\<close>

theorem uid_with_colon_is_cut:
  "startsWith ''RFID Tag UID: 04:A3:2B:1C'' ''RFID Tag UID:'' \<and>
   fst (on_data 0 ''RFID Tag UID: 04:A3:2B:1C'' serial_start) = [Call_handleCardScan ''04''] \<and>
   trim (drop (length ''RFID Tag UID:'') ''RFID Tag UID: 04:A3:2B:1C'') = ''04:A3:2B:1C''"
  by (simp add: on_data_def startsWith_def trim_def is_js_whitespace_def serial_start_def Let_def)

section \<open>The filter for duplicate scans\<close>

lemma timers_match_start: "timers_match serial_start"
  by (simp add: timers_match_def serial_start_def)

lemma remove_nth_set:
  assumes "distinct (map snd ts)" and "i < length ts"
  shows "snd ` set (take i ts @ drop (Suc i) ts) = snd ` set ts - {snd (ts ! i)}"
    and "distinct (map snd (take i ts @ drop (Suc i) ts))"
proof -
  have ts: "ts = take i ts @ ts ! i # drop (Suc i) ts"
    using assms(2) by (simp add: id_take_nth_drop)
  have d: "distinct (map snd (take i ts @ ts ! i # drop (Suc i) ts))"
    using assms(1) ts by simp
  then show "distinct (map snd (take i ts @ drop (Suc i) ts))" by auto
  have "snd ` set ts = insert (snd (ts ! i)) (snd ` set (take i ts @ drop (Suc i) ts))"
    by (subst ts) auto
  moreover have "snd (ts ! i) \<notin> snd ` set (take i ts @ drop (Suc i) ts)"
    using d by auto
  ultimately show "snd ` set (take i ts @ drop (Suc i) ts) = snd ` set ts - {snd (ts ! i)}"
    by auto
qed

lemma timers_match_step:
  assumes "run_callback c s = Some (acts, s1)" and "timers_match s"
  shows "timers_match s1"
proof (cases c)
  case (Data t line)
  with assms show ?thesis
    by (force simp: on_data_line_uid timers_match_def split: if_splits option.splits)
next
  case (Expire t i)
  with assms have i: "i < length (timers s)"
    and s1: "s1 = on_timeout (snd (timers s ! i))
                    (s\<lparr>timers := take i (timers s) @ drop (Suc i) (timers s), clock := t\<rparr>)"
    by (auto split: if_splits)
  from assms(2) have d: "distinct (map snd (timers s))" and m: "scannedRecently s = snd ` set (timers s)"
    by (auto simp: timers_match_def)
  show ?thesis
    unfolding timers_match_def s1 on_timeout_def
    using remove_nth_set[OF d i] m by simp
qed

lemma timers_match_run:
  "run_callbacks cs s = Some (outs, s1) \<Longrightarrow> timers_match s \<Longrightarrow> timers_match s1"
proof (induction cs arbitrary: s outs)
  case Nil
  then show ?case by simp
next
  case (Cons c cs)
  from Cons.prems(1) obtain acts s' rest where
    c: "run_callback c s = Some (acts, s')" and cs: "run_callbacks cs s' = Some (rest, s1)"
    by (auto split: option.splits)
  from Cons.IH[OF cs timers_match_step[OF c Cons.prems(2)]] show ?case .
qed

lemma clock_step: "run_callback c s = Some (acts, s1) \<Longrightarrow> clock s \<le> clock s1"
  by (cases c) (auto simp: on_data_line_uid on_timeout_def split: if_splits option.splits)

lemma clock_run: "run_callbacks cs s = Some (outs, s1) \<Longrightarrow> clock s \<le> clock s1"
proof (induction cs arbitrary: s outs)
  case Nil
  then show ?case by simp
next
  case (Cons c cs)
  from Cons.prems(1) obtain acts s' rest where
    c: "run_callback c s = Some (acts, s')" and cs: "run_callbacks cs s' = Some (rest, s1)"
    by (auto split: option.splits)
  from clock_step[OF c] Cons.IH[OF cs] show ?case by simp
qed

text \<open>
  A pending timer stays pending, and so its tag stays in the set, as long as the clock is
  before the time at which the timer is due.
\<close>

lemma pending_step:
  assumes "run_callback c s = Some (acts, s1)" and "timers_match s"
    and "(due, uid) \<in> set (timers s)" and "clock s1 < due"
  shows "(due, uid) \<in> set (timers s1)"
proof (cases c)
  case (Data t line)
  with assms show ?thesis
    by (auto simp: on_data_line_uid split: if_splits option.splits)
next
  case (Expire t i)
  with assms have i: "i < length (timers s)" and due: "fst (timers s ! i) \<le> t"
    and s1: "s1 = on_timeout (snd (timers s ! i))
                    (s\<lparr>timers := take i (timers s) @ drop (Suc i) (timers s), clock := t\<rparr>)"
    by (auto split: if_splits)
  have "clock s1 = t" by (simp add: s1 on_timeout_def)
  with assms(4) due have "timers s ! i \<noteq> (due, uid)" by auto
  moreover have "set (timers s) = insert (timers s ! i) (set (take i (timers s) @ drop (Suc i) (timers s)))"
    using i by (subst id_take_nth_drop[OF i]) auto
  ultimately show ?thesis using assms(3) by (auto simp: s1 on_timeout_def)
qed

lemma pending_run:
  assumes "run_callbacks cs s = Some (outs, s1)" and "timers_match s"
    and "(due, uid) \<in> set (timers s)" and "clock s1 < due"
  shows "(due, uid) \<in> set (timers s1)"
  using assms
proof (induction cs arbitrary: s outs)
  case Nil
  then show ?case by simp
next
  case (Cons c cs)
  from Cons.prems(1) obtain acts s' rest where
    c: "run_callback c s = Some (acts, s')" and cs: "run_callbacks cs s' = Some (rest, s1)"
    by (auto split: option.splits)
  from clock_run[OF cs] Cons.prems(4) have "clock s' < due" by simp
  from pending_step[OF c Cons.prems(2,3) this] have "(due, uid) \<in> set (timers s')" .
  from Cons.IH[OF cs timers_match_step[OF c Cons.prems(2)] this Cons.prems(4)]
  show ?case .
qed

text \<open>A timer that is set from some time on is due 5000 milliseconds after that time or later.\<close>

lemma due_step:
  assumes "run_callback c s = Some (acts, s1)"
    and "\<forall>d. (d, uid) \<in> set (timers s) \<longrightarrow> bound \<le> d" and "bound \<le> clock s + SCAN_TIMEOUT_MS"
  shows "\<forall>d. (d, uid) \<in> set (timers s1) \<longrightarrow> bound \<le> d"
proof (cases c)
  case (Data t line)
  with assms show ?thesis
    by (auto simp: on_data_line_uid split: if_splits option.splits)
next
  case (Expire t i)
  with assms(1) have "set (timers s1) \<subseteq> set (timers s)"
    using set_take_subset[of i "timers s"] set_drop_subset[of "Suc i" "timers s"]
    by (auto simp: on_timeout_def split: if_splits)
  with assms(2) show ?thesis by blast
qed

lemma due_run:
  assumes "run_callbacks cs s = Some (outs, s1)"
    and "\<forall>d. (d, uid) \<in> set (timers s) \<longrightarrow> bound \<le> d" and "bound \<le> clock s + SCAN_TIMEOUT_MS"
  shows "\<forall>d. (d, uid) \<in> set (timers s1) \<longrightarrow> bound \<le> d"
  using assms
proof (induction cs arbitrary: s outs)
  case Nil
  then show ?case by simp
next
  case (Cons c cs)
  from Cons.prems(1) obtain acts s' rest where
    c: "run_callback c s = Some (acts, s')" and cs: "run_callbacks cs s' = Some (rest, s1)"
    by (auto split: option.splits)
  from clock_step[OF c] Cons.prems(3) have "bound \<le> clock s' + SCAN_TIMEOUT_MS" by simp
  from Cons.IH[OF cs due_step[OF c Cons.prems(2,3)] this] show ?case .
qed

text \<open>
  The window of a tag, the tag being what the callback extracts from a line. Let the
  process have run some callbacks since its start, and let a scan line with a tag that is
  not in \<open>scannedRecently\<close> arrive at time \<open>t0\<close>. Then \<open>handleCardScan\<close> is called with
  the tag, the tag is put into the set, and a timer for it is set that is due at
  \<open>t0 + 5000\<close>; as long as the clock is before that time the timer is pending. Whatever
  callbacks run next, a scan line with the same tag that arrives before \<open>t0 + 5000\<close> gives
  the \<open>scan_event\<close> with status IGNORED and nothing else: no call of \<open>handleCardScan\<close>,
  no change of the set and no new timer. Whenever the tag is in the set, a timer for it is
  pending, and the runtime can run it at any time from its due time on, after which the
  tag is no more in the set. Whenever the timer of the tag runs, it is at \<open>t0 + 5000\<close> or
  later, and a scan line with the tag that arrives next calls \<open>handleCardScan\<close> again. And
  a scan line with another tag, one that was not in the set before, calls
  \<open>handleCardScan\<close> with that tag also when it arrives right after the first line.
\<close>

theorem duplicate_scan_window:
  assumes reach: "run_callbacks history serial_start = Some (outs0, s)"
    and scan: "line_uid line = Some uid"
    and fresh: "uid \<notin> scannedRecently s"
    and first: "run_callback (Data t0 line) s = Some (acts, s1)"
  shows "acts = [Call_handleCardScan uid] \<and>
    s1 = s\<lparr>clock := t0, scannedRecently := insert uid (scannedRecently s),
           timers := timers s @ [(t0 + 5000, uid)]\<rparr> \<and>
    (\<forall>later outs s2.
       run_callbacks later s1 = Some (outs, s2) \<and> clock s2 < t0 + 5000 \<longrightarrow>
         (t0 + 5000, uid) \<in> set (timers s2)) \<and>
    (\<forall>later outs s2 t line' acts' s3.
       run_callbacks later s1 = Some (outs, s2) \<and> line_uid line' = Some uid \<and>
       run_callback (Data t line') s2 = Some (acts', s3) \<and> t < t0 + 5000 \<longrightarrow>
         acts' = [Emit (ScanEvent \<lparr>ev_uid = uid, ev_status = Some IGNORED, ev_details = None,
                                   ev_time = None,
                                   ev_message = Some ''Duplicate scan. Wait 5s.''\<rparr>)] \<and>
         s3 = s2\<lparr>clock := t\<rparr>) \<and>
    (\<forall>later outs s2.
       run_callbacks later s1 = Some (outs, s2) \<and> uid \<in> scannedRecently s2 \<longrightarrow>
         (\<exists>i due. i < length (timers s2) \<and> timers s2 ! i = (due, uid) \<and> t0 + 5000 \<le> due \<and>
            (\<forall>t. due \<le> t \<and> clock s2 \<le> t \<longrightarrow>
               (\<exists>s3. run_callback (Expire t i) s2 = Some ([], s3) \<and>
                     uid \<notin> scannedRecently s3)))) \<and>
    (\<forall>later outs s2 t i acts' s3.
       run_callbacks later s1 = Some (outs, s2) \<and> i < length (timers s2) \<and>
       snd (timers s2 ! i) = uid \<and> run_callback (Expire t i) s2 = Some (acts', s3) \<longrightarrow>
         t0 + 5000 \<le> t \<and> uid \<notin> scannedRecently s3 \<and>
         (\<forall>t' line'. t \<le> t' \<and> line_uid line' = Some uid \<longrightarrow>
            (\<exists>s4. run_callback (Data t' line') s3 = Some ([Call_handleCardScan uid], s4)))) \<and>
    (\<forall>other t line'. other \<noteq> uid \<and> other \<notin> scannedRecently s \<and> t0 \<le> t \<and>
       line_uid line' = Some other \<longrightarrow>
         (\<exists>s2. run_callback (Data t line') s1 = Some ([Call_handleCardScan other], s2)))"
proof -
  have inv: "timers_match s"
    using timers_match_run[OF reach timers_match_start] .
  from first have t0: "clock s \<le> t0" by (auto split: if_splits)
  from first scan fresh t0 have acts: "acts = [Call_handleCardScan uid]"
    and s1: "s1 = s\<lparr>clock := t0, scannedRecently := insert uid (scannedRecently s),
                     timers := timers s @ [(t0 + SCAN_TIMEOUT_MS, uid)]\<rparr>"
    by (auto simp: on_data_line_uid)
  have inv1: "timers_match s1"
    using timers_match_step[OF first inv] .
  have pend1: "(t0 + 5000, uid) \<in> set (timers s1)"
    by (simp add: s1 SCAN_TIMEOUT_MS_def)
  have clock1: "clock s1 = t0" by (simp add: s1)
  from fresh inv have "\<forall>d. (d, uid) \<notin> set (timers s)"
    by (force simp: timers_match_def)
  then have due1: "\<forall>d. (d, uid) \<in> set (timers s1) \<longrightarrow> t0 + 5000 \<le> d"
    by (auto simp: s1 SCAN_TIMEOUT_MS_def)
  have state1: "s1 = s\<lparr>clock := t0, scannedRecently := insert uid (scannedRecently s),
                         timers := timers s @ [(t0 + 5000, uid)]\<rparr>"
    by (simp add: s1 SCAN_TIMEOUT_MS_def)
  have pending: "(t0 + 5000, uid) \<in> set (timers s2)"
    if run: "run_callbacks later s1 = Some (outs, s2)" and c: "clock s2 < t0 + 5000"
    for later outs s2
    using pending_run[OF run inv1 pend1 c] .
  have release: "\<exists>i due. i < length (timers s2) \<and> timers s2 ! i = (due, uid) \<and> t0 + 5000 \<le> due \<and>
            (\<forall>t. due \<le> t \<and> clock s2 \<le> t \<longrightarrow>
               (\<exists>s3. run_callback (Expire t i) s2 = Some ([], s3) \<and>
                     uid \<notin> scannedRecently s3))"
    if run: "run_callbacks later s1 = Some (outs, s2)" and u: "uid \<in> scannedRecently s2"
    for later outs s2
  proof -
    have inv2: "timers_match s2" using timers_match_run[OF run inv1] .
    with u have "uid \<in> snd ` set (timers s2)" by (simp add: timers_match_def)
    then obtain due where p: "(due, uid) \<in> set (timers s2)" by force
    then obtain i where i: "i < length (timers s2)" "timers s2 ! i = (due, uid)"
      by (auto simp: in_set_conv_nth)
    have "\<forall>d. (d, uid) \<in> set (timers s2) \<longrightarrow> t0 + 5000 \<le> d"
      using due_run[OF run due1] by (simp add: clock1 SCAN_TIMEOUT_MS_def)
    with p have b: "t0 + 5000 \<le> due" by blast
    have "\<exists>s3. run_callback (Expire t i) s2 = Some ([], s3) \<and> uid \<notin> scannedRecently s3"
      if "due \<le> t" "clock s2 \<le> t" for t
      using that i by (simp add: on_timeout_def)
    with i b show ?thesis by blast
  qed
  have suppressed: "acts' = [Emit (ScanEvent \<lparr>ev_uid = uid, ev_status = Some IGNORED, ev_details = None,
                                   ev_time = None,
                                   ev_message = Some ''Duplicate scan. Wait 5s.''\<rparr>)] \<and>
         s3 = s2\<lparr>clock := t\<rparr>"
    if run: "run_callbacks later s1 = Some (outs, s2)" and l: "line_uid line' = Some uid"
      and d: "run_callback (Data t line') s2 = Some (acts', s3)" and t: "t < t0 + 5000"
    for later outs s2 t line' acts' s3
  proof -
    from d have "clock s2 \<le> t" by (auto split: if_splits)
    with t have "clock s2 < t0 + 5000" by simp
    from pending_run[OF run inv1 pend1 this] have "(t0 + 5000, uid) \<in> set (timers s2)" .
    moreover have "timers_match s2" using timers_match_run[OF run inv1] .
    ultimately have "uid \<in> scannedRecently s2" by (force simp: timers_match_def)
    with d l show ?thesis
      by (auto simp: on_data_line_uid ignored_event_def new_event_data_def split: if_splits)
  qed
  have expired: "t0 + 5000 \<le> t \<and> uid \<notin> scannedRecently s3 \<and>
         (\<forall>t' line'. t \<le> t' \<and> line_uid line' = Some uid \<longrightarrow>
            (\<exists>s4. run_callback (Data t' line') s3 = Some ([Call_handleCardScan uid], s4)))"
    if run: "run_callbacks later s1 = Some (outs, s2)" and i: "i < length (timers s2)"
      and u: "snd (timers s2 ! i) = uid" and e: "run_callback (Expire t i) s2 = Some (acts', s3)"
    for later outs s2 t i acts' s3
  proof -
    have inv2: "timers_match s2" using timers_match_run[OF run inv1] .
    have "\<forall>d. (d, uid) \<in> set (timers s2) \<longrightarrow> t0 + 5000 \<le> d"
      using due_run[OF run due1] by (simp add: clock1 SCAN_TIMEOUT_MS_def)
    moreover have "(fst (timers s2 ! i), uid) \<in> set (timers s2)"
      using i u by (metis nth_mem prod.collapse)
    ultimately have "t0 + 5000 \<le> fst (timers s2 ! i)" by blast
    moreover from e have "fst (timers s2 ! i) \<le> t" by (auto split: if_splits)
    ultimately have 1: "t0 + 5000 \<le> t" by simp
    from e u have "scannedRecently s3 = scannedRecently s2 - {uid}" and c3: "clock s3 = t"
      by (auto simp: on_timeout_def split: if_splits)
    then have 2: "uid \<notin> scannedRecently s3" by simp
    have 3: "\<exists>s4. run_callback (Data t' line') s3 = Some ([Call_handleCardScan uid], s4)"
      if "t \<le> t'" "line_uid line' = Some uid" for t' line'
      using that 2 c3 by (simp add: on_data_line_uid)
    from 1 2 3 show ?thesis by blast
  qed
  have others: "\<exists>s2. run_callback (Data t line') s1 = Some ([Call_handleCardScan other], s2)"
    if "other \<noteq> uid" "other \<notin> scannedRecently s" "t0 \<le> t" "line_uid line' = Some other"
    for other t line'
    using that by (simp add: s1 on_data_line_uid)
  have c3: "\<forall>later outs s2.
       run_callbacks later s1 = Some (outs, s2) \<and> clock s2 < t0 + 5000 \<longrightarrow>
         (t0 + 5000, uid) \<in> set (timers s2)"
    using pending by blast
  have c4: "\<forall>later outs s2 t line' acts' s3.
       run_callbacks later s1 = Some (outs, s2) \<and> line_uid line' = Some uid \<and>
       run_callback (Data t line') s2 = Some (acts', s3) \<and> t < t0 + 5000 \<longrightarrow>
         acts' = [Emit (ScanEvent \<lparr>ev_uid = uid, ev_status = Some IGNORED, ev_details = None,
                                   ev_time = None,
                                   ev_message = Some ''Duplicate scan. Wait 5s.''\<rparr>)] \<and>
         s3 = s2\<lparr>clock := t\<rparr>"
    using suppressed by blast
  have c5: "\<forall>later outs s2.
       run_callbacks later s1 = Some (outs, s2) \<and> uid \<in> scannedRecently s2 \<longrightarrow>
         (\<exists>i due. i < length (timers s2) \<and> timers s2 ! i = (due, uid) \<and> t0 + 5000 \<le> due \<and>
            (\<forall>t. due \<le> t \<and> clock s2 \<le> t \<longrightarrow>
               (\<exists>s3. run_callback (Expire t i) s2 = Some ([], s3) \<and>
                     uid \<notin> scannedRecently s3)))"
    using release by blast
  have c6: "\<forall>later outs s2 t i acts' s3.
       run_callbacks later s1 = Some (outs, s2) \<and> i < length (timers s2) \<and>
       snd (timers s2 ! i) = uid \<and> run_callback (Expire t i) s2 = Some (acts', s3) \<longrightarrow>
         t0 + 5000 \<le> t \<and> uid \<notin> scannedRecently s3 \<and>
         (\<forall>t' line'. t \<le> t' \<and> line_uid line' = Some uid \<longrightarrow>
            (\<exists>s4. run_callback (Data t' line') s3 = Some ([Call_handleCardScan uid], s4)))"
    using expired by blast
  have c7: "\<forall>other t line'. other \<noteq> uid \<and> other \<notin> scannedRecently s \<and> t0 \<le> t \<and>
       line_uid line' = Some other \<longrightarrow>
         (\<exists>s2. run_callback (Data t line') s1 = Some ([Call_handleCardScan other], s2))"
    using others by blast
  from acts state1 c3 c4 c5 c6 c7 show ?thesis by (intro conjI)
qed

lemma duplicate_scan_window_example:
  "run_callbacks [] serial_start = Some ([], serial_start) \<and>
   line_uid example_line = Some ''04 A3 2B 1C'' \<and>
   ''04 A3 2B 1C'' \<notin> scannedRecently serial_start \<and>
   (\<exists>s1 s2 s3.
      run_callback (Data 1000 example_line) serial_start =
        Some ([Call_handleCardScan ''04 A3 2B 1C''], s1) \<and>
      run_callback (Data 3000 example_line) s1 =
        Some ([Emit (ignored_event ''04 A3 2B 1C'')], s2) \<and>
      run_callback (Expire 6000 0) s2 = Some ([], s3) \<and>
      ''04 A3 2B 1C'' \<notin> scannedRecently s3 \<and>
      (\<exists>s4. run_callback (Data 6500 example_line) s3 =
               Some ([Call_handleCardScan ''04 A3 2B 1C''], s4)))"
proof -
  define s1 where "s1 = \<lparr>scannedRecently = {''04 A3 2B 1C''}, timers = [(6000, ''04 A3 2B 1C'')],
                          clock = 1000\<rparr>"
  have r: "run_callbacks [] serial_start = Some ([], serial_start)" by simp
  have l: "line_uid example_line = Some ''04 A3 2B 1C''"
    by (simp add: line_uid_eq startsWith_def example_line_def trim_def is_js_whitespace_def)
  have n: "''04 A3 2B 1C'' \<notin> scannedRecently serial_start" by (simp add: serial_start_def)
  have f: "run_callback (Data 1000 example_line) serial_start =
             Some ([Call_handleCardScan ''04 A3 2B 1C''], s1)"
    by (simp add: serial_start_def on_data_line_uid l s1_def SCAN_TIMEOUT_MS_def)
  have d: "run_callback (Data 3000 example_line) s1 =
             Some ([Emit (ignored_event ''04 A3 2B 1C'')], s1\<lparr>clock := 3000\<rparr>)"
    by (simp add: on_data_line_uid l s1_def)
  have later: "run_callbacks [Data 3000 example_line] s1 =
                 Some ([[Emit (ignored_event ''04 A3 2B 1C'')]], s1\<lparr>clock := 3000\<rparr>)"
    using d by (simp del: run_callback.simps)
  have x: "run_callback (Expire 6000 0) (s1\<lparr>clock := 3000\<rparr>) =
             Some ([], \<lparr>scannedRecently = {}, timers = [], clock = 6000\<rparr>)"
    by (simp add: s1_def on_timeout_def)
  have i: "0 < length (timers (s1\<lparr>clock := 3000\<rparr>))" "snd (timers (s1\<lparr>clock := 3000\<rparr>) ! 0) = ''04 A3 2B 1C''"
    by (simp_all add: s1_def)
  note th = duplicate_scan_window[OF r l n f]
  from th[THEN conjunct2, THEN conjunct2, THEN conjunct2, THEN conjunct2, THEN conjunct2,
      THEN conjunct1, rule_format,
      of "[Data 3000 example_line]" "[[Emit (ignored_event ''04 A3 2B 1C'')]]" "s1\<lparr>clock := 3000\<rparr>"
         0 6000 "[]" "\<lparr>scannedRecently = {}, timers = [], clock = 6000\<rparr>"]
    later i x
  have after: "''04 A3 2B 1C'' \<notin> scannedRecently \<lparr>scannedRecently = {}, timers = [], clock = 6000\<rparr> \<and>
      (\<forall>t' line'. 6000 \<le> t' \<and> line_uid line' = Some ''04 A3 2B 1C'' \<longrightarrow>
         (\<exists>s4. run_callback (Data t' line') \<lparr>scannedRecently = {}, timers = [], clock = 6000\<rparr> =
                  Some ([Call_handleCardScan ''04 A3 2B 1C''], s4)))"
    by blast
  then have again: "\<exists>s4. run_callback (Data 6500 example_line) \<lparr>scannedRecently = {}, timers = [], clock = 6000\<rparr> =
                  Some ([Call_handleCardScan ''04 A3 2B 1C''], s4)"
    using l by simp
  from r l n f d x after again show ?thesis by blast
qed

text \<open>
  C2. The cards \<open>04:A3:2B:1C\<close> and \<open>04:FF:00:11\<close> are different, and the callback
  extracts the tag \<open>04\<close> from the lines of both. The line of the first arrives at time
  1000 and \<open>handleCardScan\<close> is called; the line of the second arrives at time 2000 and
  is answered with the \<open>scan_event\<close> of status IGNORED, without a call of
  \<open>handleCardScan\<close>.
\<close>

theorem different_cards_one_tag:
  "startsWith ''RFID Tag UID: 04:A3:2B:1C'' ''RFID Tag UID:'' \<and>
   startsWith ''RFID Tag UID: 04:FF:00:11'' ''RFID Tag UID:'' \<and>
   trim (drop (length ''RFID Tag UID:'') ''RFID Tag UID: 04:A3:2B:1C'') = ''04:A3:2B:1C'' \<and>
   trim (drop (length ''RFID Tag UID:'') ''RFID Tag UID: 04:FF:00:11'') = ''04:FF:00:11'' \<and>
   run_callbacks
     [Data 1000 ''RFID Tag UID: 04:A3:2B:1C'', Data 2000 ''RFID Tag UID: 04:FF:00:11'']
     serial_start =
   Some ([[Call_handleCardScan ''04''],
          [Emit (ScanEvent \<lparr>ev_uid = ''04'', ev_status = Some IGNORED, ev_details = None,
                             ev_time = None,
                             ev_message = Some ''Duplicate scan. Wait 5s.''\<rparr>)]],
         \<lparr>scannedRecently = {''04''}, timers = [(6000, ''04'')], clock = 2000\<rparr>)"
  by (simp add: on_data_def startsWith_def trim_def is_js_whitespace_def serial_start_def Let_def
      SCAN_TIMEOUT_MS_def ignored_event_def new_event_data_def)

section \<open>Degrees that are names of \<open>Object.prototype\<close>\<close>

text \<open>
  C10. In the example the student of the program with the degree \<open>constructor\<close> has
  logged in today. The query of \<open>getTodayBranchCounts\<close> returns the row of that degree
  with one visit, and the function throws a \<open>TypeError\<close> instead of returning an object.
\<close>

theorem inherited_degree_throws:
  "select_branch_counts ''2025-03-10'' example_db_constructor =
     [\<lparr>c_degree = ''constructor'', c_branch_code = ''CSE'', c_visit_count = 1\<rparr>] \<and>
   fst (getTodayBranchCounts no_faults ''2025-03-10'' (world_of example_db_constructor)) =
     Inl TypeError"
proof -
  have v: "counted_visits ''2025-03-10'' example_db_constructor = [(''constructor'', ''CSE'')]"
    by (simp add: counted_visits_def example_db_constructor_def example_defs)
  have 1: "select_branch_counts ''2025-03-10'' example_db_constructor =
     [\<lparr>c_degree = ''constructor'', c_branch_code = ''CSE'', c_visit_count = 1\<rparr>]"
    by (simp add: select_branch_counts_def v)
  have g: "get_property [] ''constructor'' = Inherited"
    by (simp add: get_property_def object_prototype_names_def)
  show ?thesis
    by (simp add: 1 g truthy_value_def getTodayBranchCounts_def dbPool_query_def reading_def
        world_of_def no_faults_def)
qed

end
